theory Spec2Isabelle
  imports Main
begin

section \<open>Course availability settings: \<^verbatim>\<open>modules/courses/availability.py\<close>\<close>

text \<open>
  A shallow embedding of \<^verbatim>\<open>AvailabilityRESTHandler\<close>: the read side
  (\<^verbatim>\<open>add_unit\<close>, \<^verbatim>\<open>add_lesson\<close>, \<^verbatim>\<open>traverse_course\<close>) and the write side
  (\<^verbatim>\<open>put\<close>). Python exceptions are values of \<open>error\<close>; the objects the handler
  mutates in place live in an explicit course value that is passed through; the calls
  the handler makes on the persistence layer are recorded in a log.
\<close>

subsection \<open>JSON values\<close>

text \<open>
  What \<^verbatim>\<open>transforms.loads\<close> yields for a payload field. \<open>JNull\<close> is Python's
  \<^verbatim>\<open>None\<close>. \<open>truthy\<close> is Python's truth test, as used by \<^verbatim>\<open>if x:\<close> and
  \<^verbatim>\<open>bool(x)\<close>.
\<close>

datatype json =
  JNull
  | JBool bool
  | JNum int
  | JStr string
  | JArr "json list"
  | JObj "(string \<times> json) list"

fun truthy :: "json \<Rightarrow> bool" where
  "truthy JNull = False"
| "truthy (JBool b) = b"
| "truthy (JNum n) = (n \<noteq> 0)"
| "truthy (JStr s) = (s \<noteq> [])"
| "truthy (JArr xs) = (xs \<noteq> [])"
| "truthy (JObj kvs) = (kvs \<noteq> [])"

datatype error = ValueError | KeyError | TypeError | AttributeError

subsection \<open>The course model\<close>

text \<open>
  Modelled from the spec: \<^verbatim>\<open>models/courses.py\<close> is not among the sources, so units,
  lessons and the course's lookups follow section 3 and 4 of the specification. A unit
  has an identifier, a title, an availability, a shown-when-unavailable flag, optional
  references to a pre- and a post-assessment (by identifier) and a discriminator; a
  lesson belongs to a unit by that unit's identifier. Identifiers are numbers;
  availability and the flag hold whatever JSON value was last assigned to them.
  \<open>TYPE_OTHER\<close> stands for a unit that answers neither \<^verbatim>\<open>is_unit()\<close> nor
  \<^verbatim>\<open>is_assessment()\<close>.
\<close>

datatype unit_type = TYPE_UNIT | TYPE_ASSESSMENT | TYPE_OTHER

record unit_rec =
  unit_id :: nat
  utype :: unit_type
  title :: string
  availability :: json
  shown_when_unavailable :: json
  pre_assessment :: "nat option"
  post_assessment :: "nat option"

record lesson =
  lesson_id :: nat
  lesson_unit_id :: nat
  lesson_title :: string
  lesson_availability :: json
  lesson_shown_when_unavailable :: json

record course =
  units :: "unit_rec list"
  lessons :: "lesson list"

definition is_unit :: "unit_rec \<Rightarrow> bool" where
  "is_unit u = (utype u = TYPE_UNIT)"

definition is_assessment :: "unit_rec \<Rightarrow> bool" where
  "is_assessment u = (utype u = TYPE_ASSESSMENT)"

definition get_units :: "course \<Rightarrow> unit_rec list" where
  "get_units c = units c"

definition get_lessons :: "course \<Rightarrow> nat \<Rightarrow> lesson list" where
  "get_lessons c uid = filter (\<lambda>l. lesson_unit_id l = uid) (lessons c)"

definition find_unit_by_id :: "course \<Rightarrow> nat \<Rightarrow> unit_rec option" where
  "find_unit_by_id c i = find (\<lambda>u. unit_id u = i) (units c)"

text \<open>The lesson lookup is unit-agnostic: the handler passes \<^verbatim>\<open>None\<close> for the unit.\<close>

definition find_lesson_by_id :: "course \<Rightarrow> nat \<Rightarrow> lesson option" where
  "find_lesson_by_id c i = find (\<lambda>l. lesson_id l = i) (lessons c)"

text \<open>The parent of a unit: a unit that names it as its pre- or post-assessment.\<close>

definition get_parent_unit :: "course \<Rightarrow> nat \<Rightarrow> unit_rec option" where
  "get_parent_unit c i =
     find (\<lambda>u. pre_assessment u = Some i \<or> post_assessment u = Some i) (units c)"

text \<open>
  Python's truth test on a reference (\<^verbatim>\<open>if unit.pre_assessment:\<close>): \<^verbatim>\<open>None\<close> and
  \<^verbatim>\<open>0\<close> are false.
\<close>

definition has_ref :: "nat option \<Rightarrow> bool" where
  "has_ref r = (case r of None \<Rightarrow> False | Some i \<Rightarrow> i \<noteq> 0)"

subsection \<open>The read side: flattening the course\<close>

text \<open>The dictionaries \<^verbatim>\<open>add_unit\<close> and \<^verbatim>\<open>add_lesson\<close> append.\<close>

record element =
  e_type :: string
  e_id :: nat
  e_indent :: bool
  e_name :: string
  e_availability :: json
  e_shown_when_unavailable :: json

definition unit_element :: "unit_rec \<Rightarrow> bool \<Rightarrow> element" where
  "unit_element u indent =
     \<lparr>e_type = ''unit'', e_id = unit_id u, e_indent = indent, e_name = title u,
      e_availability = availability u,
      e_shown_when_unavailable = shown_when_unavailable u\<rparr>"

definition lesson_element :: "lesson \<Rightarrow> element" where
  "lesson_element l =
     \<lparr>e_type = ''lesson'', e_id = lesson_id l, e_indent = True, e_name = lesson_title l,
      e_availability = lesson_availability l,
      e_shown_when_unavailable = lesson_shown_when_unavailable l\<rparr>"

text \<open>
  \<^verbatim>\<open>add_unit\<close> receives what \<^verbatim>\<open>find_unit_by_id\<close> returned; on \<^verbatim>\<open>None\<close> the
  attribute access \<^verbatim>\<open>unit.unit_id\<close> raises.
\<close>

fun add_unit :: "unit_rec option \<Rightarrow> element list \<Rightarrow> bool \<Rightarrow> error + element list" where
  "add_unit None elements indent = Inl AttributeError"
| "add_unit (Some u) elements indent = Inr (elements @ [unit_element u indent])"

definition add_lesson :: "lesson \<Rightarrow> element list \<Rightarrow> element list" where
  "add_lesson l elements = elements @ [lesson_element l]"

text \<open>The body of the loop over the units, and the loop, with \<open>elements\<close> as accumulator.\<close>

definition traverse_unit :: "course \<Rightarrow> unit_rec \<Rightarrow> element list \<Rightarrow> error + element list" where
  "traverse_unit c u elements =
     (if is_assessment u \<and> get_parent_unit c (unit_id u) \<noteq> None then Inr elements
      else
        case add_unit (Some u) elements False of
          Inl e \<Rightarrow> Inl e
        | Inr el1 \<Rightarrow>
            if is_unit u then
              (case (if has_ref (pre_assessment u)
                     then add_unit (find_unit_by_id c (the (pre_assessment u))) el1 True
                     else Inr el1) of
                 Inl e \<Rightarrow> Inl e
               | Inr el2 \<Rightarrow>
                   (let el3 = fold add_lesson (get_lessons c (unit_id u)) el2
                    in if has_ref (post_assessment u)
                       then add_unit (find_unit_by_id c (the (post_assessment u))) el3 True
                       else Inr el3))
            else Inr el1)"

fun traverse_units :: "course \<Rightarrow> unit_rec list \<Rightarrow> element list \<Rightarrow> error + element list" where
  "traverse_units c [] elements = Inr elements"
| "traverse_units c (u # us) elements =
     (case traverse_unit c u elements of
        Inl e \<Rightarrow> Inl e
      | Inr elements' \<Rightarrow> traverse_units c us elements')"

definition traverse_course :: "course \<Rightarrow> error + element list" where
  "traverse_course c = traverse_units c (get_units c) []"

subsection \<open>The write side: merging a payload\<close>

text \<open>
  An entry of the payload's \<^verbatim>\<open>element_settings\<close> array, with the four keys
  \<^verbatim>\<open>put\<close> reads (\<^verbatim>\<open>indent\<close> and \<^verbatim>\<open>name\<close> are never read). \<open>None\<close> is a key
  that is absent. The type is the string compared with \<^verbatim>\<open>'unit'\<close> and
  \<^verbatim>\<open>'lesson'\<close>; the id is the identifier handed to the course's lookups.
\<close>

record item =
  item_type :: "string option"
  item_id :: "nat option"
  item_availability :: "json option"
  item_shown_when_unavailable :: "json option"

text \<open>
  The value under \<^verbatim>\<open>element_settings\<close>: the key is absent, or it holds JSON
  \<^verbatim>\<open>null\<close>, or an array of entries.
\<close>

datatype es_field = ES_absent | ES_null | ES_list "item list"

text \<open>
  The decoded payload. For the three scalar keys \<open>None\<close> is an absent key and
  \<open>Some JNull\<close> an explicit \<^verbatim>\<open>null\<close>.
\<close>

record payload =
  p_whitelist :: "json option"
  p_show_lessons_in_syllabus :: "json option"
  p_course_availability :: "json option"
  p_element_settings :: es_field

text \<open>\<^verbatim>\<open>dict.get(key)\<close>: \<^verbatim>\<open>None\<close> for an absent key, the value otherwise.\<close>

definition dict_get :: "json option \<Rightarrow> json" where
  "dict_get f = (case f of None \<Rightarrow> JNull | Some v \<Rightarrow> v)"

text \<open>
  The two settings \<^verbatim>\<open>put\<close> writes: \<^verbatim>\<open>settings['reg_form']['whitelist']\<close> and
  \<^verbatim>\<open>settings['course']['show_lessons_in_syllabus']\<close> (\<open>None\<close> while the key has
  never been set).
\<close>

record settings =
  reg_form_whitelist :: json
  course_show_lessons_in_syllabus :: "bool option"

text \<open>
  Modelled from the spec: the persistence layer behind \<^verbatim>\<open>get_course\<close>,
  \<^verbatim>\<open>get_environ\<close>, \<^verbatim>\<open>save_settings\<close>, \<^verbatim>\<open>set_course_availability\<close> and
  \<^verbatim>\<open>course.save\<close> is not among the sources. The store holds the persisted settings,
  the course-wide availability policy and the persisted unit/lesson tree; a request
  loads the course and the settings from it, \<^verbatim>\<open>save_settings\<close> writes the settings
  back, the setter writes the policy, \<^verbatim>\<open>course.save\<close> writes the tree back. Each of
  the three calls is also recorded, in order, in a log.
\<close>

record store =
  environ :: settings
  course_availability :: json
  stored_course :: course

datatype call =
  Save_settings settings
  | Set_course_availability json
  | Save_course course

text \<open>
  How a request ends: the XSRF helper has answered, or \<^verbatim>\<open>send_json_response\<close> was
  called with a status and a message, or an exception left the handler.
\<close>

datatype outcome = Xsrf_rejected | Sent nat string | Raised error

text \<open>
  The object a lookup returns is the first one with the identifier; assigning to its
  attributes changes that object inside the course.
\<close>

fun update_first :: "('a \<Rightarrow> bool) \<Rightarrow> ('a \<Rightarrow> 'a) \<Rightarrow> 'a list \<Rightarrow> 'a list" where
  "update_first P f [] = []"
| "update_first P f (x # xs) = (if P x then f x # xs else x # update_first P f xs)"

definition assign_unit :: "item \<Rightarrow> unit_rec \<Rightarrow> unit_rec" where
  "assign_unit x u =
     (let u1 = (case item_availability x of None \<Rightarrow> u | Some a \<Rightarrow> u\<lparr>availability := a\<rparr>)
      in case item_shown_when_unavailable x of
           None \<Rightarrow> u1
         | Some s \<Rightarrow> u1\<lparr>shown_when_unavailable := s\<rparr>)"

definition assign_lesson :: "item \<Rightarrow> lesson \<Rightarrow> lesson" where
  "assign_lesson x l =
     (let l1 = (case item_availability x of None \<Rightarrow> l | Some a \<Rightarrow> l\<lparr>lesson_availability := a\<rparr>)
      in case item_shown_when_unavailable x of
           None \<Rightarrow> l1
         | Some s \<Rightarrow> l1\<lparr>lesson_shown_when_unavailable := s\<rparr>)"

text \<open>The body of the loop over \<^verbatim>\<open>element_settings\<close>, and the loop.\<close>

definition put_item :: "item \<Rightarrow> course \<Rightarrow> error + course" where
  "put_item x c =
     (case item_type x of
        None \<Rightarrow> Inl KeyError
      | Some t \<Rightarrow>
          if t = ''unit'' then
            (case item_id x of
               None \<Rightarrow> Inl KeyError
             | Some i \<Rightarrow>
                 (case find_unit_by_id c i of
                    None \<Rightarrow> Inr c
                  | Some element \<Rightarrow>
                      Inr (c\<lparr>units := update_first (\<lambda>u. unit_id u = i) (assign_unit x) (units c)\<rparr>)))
          else if t = ''lesson'' then
            (case item_id x of
               None \<Rightarrow> Inl KeyError
             | Some i \<Rightarrow>
                 (case find_lesson_by_id c i of
                    None \<Rightarrow> Inr c
                  | Some element \<Rightarrow>
                      Inr (c\<lparr>lessons := update_first (\<lambda>l. lesson_id l = i) (assign_lesson x) (lessons c)\<rparr>)))
          else Inl ValueError)"

fun put_items :: "item list \<Rightarrow> course \<Rightarrow> error + course" where
  "put_items [] c = Inr c"
| "put_items (x # xs) c =
     (case put_item x c of
        Inl e \<Rightarrow> Inl e
      | Inr c' \<Rightarrow> put_items xs c')"

text \<open>
  \<^verbatim>\<open>for item in payload.get('element_settings', [])\<close>: the default is used for an
  absent key only; iterating over \<^verbatim>\<open>None\<close> raises.
\<close>

definition put_element_settings :: "es_field \<Rightarrow> course \<Rightarrow> error + course" where
  "put_element_settings f c =
     (case f of
        ES_absent \<Rightarrow> put_items [] c
      | ES_null \<Rightarrow> Inl TypeError
      | ES_list items \<Rightarrow> put_items items c)"

text \<open>
  \<^verbatim>\<open>put\<close>. The two booleans are the results of \<^verbatim>\<open>assert_xsrf_token_or_fail\<close> and
  \<^verbatim>\<open>Roles.is_user_allowed\<close>. The result is how the request ended, the calls made on
  the persistence layer in order, and the store afterwards.
\<close>

definition put :: "bool \<Rightarrow> bool \<Rightarrow> payload \<Rightarrow> store \<Rightarrow> outcome \<times> call list \<times> store" where
  "put xsrf_ok allowed payload st =
     (if \<not> xsrf_ok then (Xsrf_rejected, [], st)
      else if \<not> allowed then (Sent 401 ''Access denied.'', [], st)
      else
        let course = stored_course st;
            settings = environ st;
            whitelist = dict_get (p_whitelist payload);
            settings = (if whitelist \<noteq> JNull
                        then settings\<lparr>reg_form_whitelist := whitelist\<rparr>
                        else settings);
            show_lessons_in_syllabus = dict_get (p_show_lessons_in_syllabus payload);
            settings = (if show_lessons_in_syllabus \<noteq> JNull
                        then settings\<lparr>course_show_lessons_in_syllabus :=
                                        Some (truthy show_lessons_in_syllabus)\<rparr>
                        else settings);
            st = st\<lparr>environ := settings\<rparr>;
            calls = [Save_settings settings];
            course_availability = dict_get (p_course_availability payload);
            st = (if truthy course_availability
                  then st\<lparr>course_availability := course_availability\<rparr>
                  else st);
            calls = (if truthy course_availability
                     then calls @ [Set_course_availability course_availability]
                     else calls)
        in case put_element_settings (p_element_settings payload) course of
             Inl e \<Rightarrow> (Raised e, calls, st)
           | Inr course' \<Rightarrow>
               (Sent 200 ''Saved.'', calls @ [Save_course course'],
                st\<lparr>stored_course := course'\<rparr>))"

subsection \<open>Notions used to state the properties\<close>

text \<open>
  A plain unit holds a dangling reference when its pre- or post-assessment reference
  passes the truth test and names no unit of the course.
\<close>

definition dangling :: "course \<Rightarrow> unit_rec \<Rightarrow> bool" where
  "dangling c u =
     (is_unit u \<and>
      ((has_ref (pre_assessment u) \<and> find_unit_by_id c (the (pre_assessment u)) = None) \<or>
       (has_ref (post_assessment u) \<and> find_unit_by_id c (the (post_assessment u)) = None)))"

text \<open>The elements one reference contributes, and the elements one unit contributes.\<close>

definition nested_ref :: "course \<Rightarrow> nat option \<Rightarrow> element list" where
  "nested_ref c r =
     (if has_ref r
      then (case find_unit_by_id c (the r) of None \<Rightarrow> [] | Some a \<Rightarrow> [unit_element a True])
      else [])"

definition unit_block :: "course \<Rightarrow> unit_rec \<Rightarrow> element list" where
  "unit_block c u =
     (if is_assessment u \<and> get_parent_unit c (unit_id u) \<noteq> None then []
      else if is_unit u
        then unit_element u False # nested_ref c (pre_assessment u)
               @ map lesson_element (get_lessons c (unit_id u))
               @ nested_ref c (post_assessment u)
        else [unit_element u False])"

text \<open>
  Identifiers are unique within the course: the invariant of the data model (section 3
  of the specification).
\<close>

definition unique_ids :: "course \<Rightarrow> bool" where
  "unique_ids c =
     (distinct (map unit_id (units c)) \<and> distinct (map lesson_id (lessons c)))"

text \<open>
  Every lesson belongs to a plain unit of the course. The specification asks only that
  a lesson belongs to a unit; \<^verbatim>\<open>traverse_course\<close> emits the lessons of plain units
  only.
\<close>

definition lessons_owned :: "course \<Rightarrow> bool" where
  "lessons_owned c =
     list_all (\<lambda>l. list_ex (\<lambda>u. is_unit u \<and> unit_id u = lesson_unit_id l) (units c))
       (lessons c)"

text \<open>
  The entry a client sends back for an element it was shown: the same type and id, and
  the element's availability and shown-when-unavailable values.
\<close>

definition element_to_item :: "element \<Rightarrow> item" where
  "element_to_item e =
     \<lparr>item_type = Some (e_type e), item_id = Some (e_id e),
      item_availability = Some (e_availability e),
      item_shown_when_unavailable = Some (e_shown_when_unavailable e)\<rparr>"

text \<open>
  The exception an entry raises, which does not depend on the course, and what the
  entry does to the course when it raises none.
\<close>

definition item_error :: "item \<Rightarrow> error option" where
  "item_error x =
     (case item_type x of
        None \<Rightarrow> Some KeyError
      | Some t \<Rightarrow>
          if t = ''unit'' \<or> t = ''lesson''
          then (case item_id x of None \<Rightarrow> Some KeyError | Some i \<Rightarrow> None)
          else Some ValueError)"

definition item_effect :: "item \<Rightarrow> course \<Rightarrow> course" where
  "item_effect x c = (case put_item x c of Inl e \<Rightarrow> c | Inr c' \<Rightarrow> c')"

fun items_error :: "item list \<Rightarrow> error option" where
  "items_error [] = None"
| "items_error (x # xs) =
     (case item_error x of Some e \<Rightarrow> Some e | None \<Rightarrow> items_error xs)"

text \<open>What an entry does to the list of units and to the list of lessons.\<close>

definition item_units :: "item \<Rightarrow> unit_rec list \<Rightarrow> unit_rec list" where
  "item_units x us =
     (case item_id x of
        None \<Rightarrow> us
      | Some i \<Rightarrow>
          if item_type x = Some ''unit''
          then update_first (\<lambda>u. unit_id u = i) (assign_unit x) us
          else us)"

definition item_lessons :: "item \<Rightarrow> lesson list \<Rightarrow> lesson list" where
  "item_lessons x ls =
     (case item_id x of
        None \<Rightarrow> ls
      | Some i \<Rightarrow>
          if item_type x = Some ''lesson''
          then update_first (\<lambda>l. lesson_id l = i) (assign_lesson x) ls
          else ls)"

text \<open>An entry with a well-formed type whose id resolves to nothing in the course.\<close>

definition unresolved_item :: "course \<Rightarrow> item \<Rightarrow> bool" where
  "unresolved_item c x =
     (case item_id x of
        None \<Rightarrow> False
      | Some i \<Rightarrow>
          (item_type x = Some ''unit'' \<and> find_unit_by_id c i = None) \<or>
          (item_type x = Some ''lesson'' \<and> find_lesson_by_id c i = None))"

fun is_setter_call :: "call \<Rightarrow> bool" where
  "is_setter_call (Set_course_availability v) = True"
| "is_setter_call (Save_settings s) = False"
| "is_setter_call (Save_course c) = False"

fun is_save_call :: "call \<Rightarrow> bool" where
  "is_save_call (Set_course_availability v) = False"
| "is_save_call (Save_settings s) = True"
| "is_save_call (Save_course c) = True"

text \<open>
  The course-level part of \<^verbatim>\<open>put\<close>, which runs before the loop over the entries: the
  settings as saved, the store after the settings save and the setter, and the calls
  made so far.
\<close>

definition merged_settings :: "payload \<Rightarrow> settings \<Rightarrow> settings" where
  "merged_settings p s =
     (let s1 = (if dict_get (p_whitelist p) \<noteq> JNull
                then s\<lparr>reg_form_whitelist := dict_get (p_whitelist p)\<rparr>
                else s)
      in if dict_get (p_show_lessons_in_syllabus p) \<noteq> JNull
         then s1\<lparr>course_show_lessons_in_syllabus :=
                   Some (truthy (dict_get (p_show_lessons_in_syllabus p)))\<rparr>
         else s1)"

definition course_level_store :: "payload \<Rightarrow> store \<Rightarrow> store" where
  "course_level_store p st =
     (let st1 = st\<lparr>environ := merged_settings p (environ st)\<rparr>
      in if truthy (dict_get (p_course_availability p))
         then st1\<lparr>course_availability := dict_get (p_course_availability p)\<rparr>
         else st1)"

definition course_level_calls :: "payload \<Rightarrow> store \<Rightarrow> call list" where
  "course_level_calls p st =
     Save_settings (merged_settings p (environ st)) #
       (if truthy (dict_get (p_course_availability p))
        then [Set_course_availability (dict_get (p_course_availability p))]
        else [])"

subsection \<open>Sample courses, payloads and stores\<close>

definition mk_unit :: "nat \<Rightarrow> unit_type \<Rightarrow> nat option \<Rightarrow> nat option \<Rightarrow> unit_rec" where
  "mk_unit i t pre post =
     \<lparr>unit_id = i, utype = t, title = ''T'', availability = JStr ''course'',
      shown_when_unavailable = JBool False, pre_assessment = pre, post_assessment = post\<rparr>"

definition mk_lesson :: "nat \<Rightarrow> nat \<Rightarrow> lesson" where
  "mk_lesson i uid =
     \<lparr>lesson_id = i, lesson_unit_id = uid, lesson_title = ''L'',
      lesson_availability = JStr ''private'', lesson_shown_when_unavailable = JBool True\<rparr>"

text \<open>
  A unit with a pre-assessment (2), two lessons and a post-assessment (3), followed by
  a standalone assessment and a second unit with one lesson.
\<close>

definition sample_course :: course where
  "sample_course =
     \<lparr>units = [mk_unit 1 TYPE_UNIT (Some 2) (Some 3), mk_unit 2 TYPE_ASSESSMENT None None,
               mk_unit 3 TYPE_ASSESSMENT None None, mk_unit 4 TYPE_ASSESSMENT None None,
               mk_unit 5 TYPE_UNIT None None],
      lessons = [mk_lesson 10 1, mk_lesson 11 1, mk_lesson 12 5]\<rparr>"

text \<open>A course without pre- or post-assessments.\<close>

definition flat_course :: course where
  "flat_course =
     \<lparr>units = [mk_unit 1 TYPE_UNIT None None, mk_unit 4 TYPE_ASSESSMENT None None,
               mk_unit 5 TYPE_UNIT None None],
      lessons = [mk_lesson 10 1, mk_lesson 12 5, mk_lesson 11 1]\<rparr>"

text \<open>A course without references in which a lesson belongs to an assessment.\<close>

definition assessment_lesson_course :: course where
  "assessment_lesson_course =
     \<lparr>units = [mk_unit 1 TYPE_ASSESSMENT None None, mk_unit 2 TYPE_UNIT None None],
      lessons = [mk_lesson 10 1, mk_lesson 20 2]\<rparr>"

text \<open>A unit whose pre-assessment reference names no unit.\<close>

definition dangling_course :: course where
  "dangling_course = \<lparr>units = [mk_unit 1 TYPE_UNIT (Some 7) None], lessons = []\<rparr>"

definition sample_store :: store where
  "sample_store =
     \<lparr>environ = \<lparr>reg_form_whitelist = JStr ''a@example.com'',
                  course_show_lessons_in_syllabus = Some False\<rparr>,
      course_availability = JStr ''private'',
      stored_course = sample_course\<rparr>"

definition empty_payload :: payload where
  "empty_payload =
     \<lparr>p_whitelist = None, p_show_lessons_in_syllabus = None,
      p_course_availability = None, p_element_settings = ES_absent\<rparr>"

definition mk_item :: "string \<Rightarrow> nat \<Rightarrow> item" where
  "mk_item t i =
     \<lparr>item_type = Some t, item_id = Some i, item_availability = Some (JStr ''public''),
      item_shown_when_unavailable = None\<rparr>"

section \<open>Properties\<close>

subsection \<open>The flattening, unit by unit\<close>

lemma fold_add_lesson: "fold add_lesson ls els = els @ map lesson_element ls"
  by (induction ls arbitrary: els) (simp_all add: add_lesson_def)

lemma is_unit_not_assessment: "is_unit u \<Longrightarrow> \<not> is_assessment u"
  by (simp add: is_unit_def is_assessment_def)

lemma traverse_unit_ok:
  "\<not> dangling c u \<Longrightarrow> traverse_unit c u els = Inr (els @ unit_block c u)"
  by (auto simp: traverse_unit_def dangling_def unit_block_def nested_ref_def
      fold_add_lesson Let_def is_unit_not_assessment split: option.splits)

lemma traverse_unit_fail:
  "dangling c u \<Longrightarrow> traverse_unit c u els = Inl AttributeError"
  by (cases "find_unit_by_id c (the (pre_assessment u))")
     (auto simp: traverse_unit_def dangling_def fold_add_lesson Let_def
      is_unit_not_assessment)

lemma traverse_units_ok:
  "\<forall>u\<in>set us. \<not> dangling c u \<Longrightarrow>
   traverse_units c us els = Inr (els @ concat (map (unit_block c) us))"
  by (induction us arbitrary: els) (simp_all add: traverse_unit_ok)

lemma traverse_units_fail:
  "\<exists>u\<in>set us. dangling c u \<Longrightarrow> traverse_units c us els = Inl AttributeError"
proof (induction us arbitrary: els)
  case Nil
  then show ?case by simp
next
  case (Cons u us)
  show ?case
  proof (cases "dangling c u")
    case True
    then show ?thesis by (simp add: traverse_unit_fail)
  next
    case False
    with Cons.prems have "\<exists>v\<in>set us. dangling c v" by auto
    then show ?thesis using False Cons.IH by (simp add: traverse_unit_ok)
  qed
qed

lemma traverse_course_cases:
  "traverse_course c =
     (if \<exists>u\<in>set (units c). dangling c u then Inl AttributeError
      else Inr (concat (map (unit_block c) (units c))))"
  using traverse_units_fail [of "units c" c "[]"] traverse_units_ok [of "units c" c "[]"]
  by (auto simp: traverse_course_def get_units_def)

subsection \<open>Dangling references\<close>

text \<open>
  C10. \<^verbatim>\<open>traverse_course\<close> returns a list exactly when no plain unit of the course
  holds a pre- or post-assessment reference that names no unit; when some plain unit
  holds such a dangling reference, the lookup returns nothing, the attribute access on
  it raises, and the traversal fails with that error instead of skipping the reference.
\<close>

theorem traverse_course_needs_resolving_refs:
  "((\<exists>es. traverse_course c = Inr es) = (\<forall>u\<in>set (get_units c). \<not> dangling c u)) \<and>
   ((\<exists>u\<in>set (get_units c). dangling c u) \<longrightarrow> traverse_course c = Inl AttributeError)"
  by (auto simp: traverse_course_cases get_units_def)

theorem traverse_course_needs_resolving_refs_witness:
  "mk_unit 1 TYPE_UNIT (Some 7) None \<in> set (get_units dangling_course) \<and>
   dangling dangling_course (mk_unit 1 TYPE_UNIT (Some 7) None) \<and>
   find_unit_by_id dangling_course 7 = None \<and>
   traverse_course dangling_course = Inl AttributeError"
  using traverse_course_needs_resolving_refs [of dangling_course]
  by (simp add: dangling_course_def mk_unit_def dangling_def get_units_def is_unit_def
      has_ref_def find_unit_by_id_def)

subsection \<open>Courses without assessment links\<close>

lemma length_filter_disj:
  "\<forall>x\<in>set xs. \<not> (P x \<and> Q x) \<Longrightarrow>
   length (filter (\<lambda>x. P x \<or> Q x) xs) = length (filter P xs) + length (filter Q xs)"
  by (induction xs) auto

lemma lessons_by_unit_count:
  "distinct (map unit_id us) \<Longrightarrow>
   sum_list (map (\<lambda>u. length (filter (\<lambda>l. lesson_unit_id l = unit_id u) ls)) us) =
   length (filter (\<lambda>l. lesson_unit_id l \<in> unit_id ` set us) ls)"
proof (induction us)
  case Nil
  then show ?case by simp
next
  case (Cons v us)
  from Cons.prems have fresh: "unit_id v \<notin> unit_id ` set us" and d: "distinct (map unit_id us)"
    by simp_all
  have "length (filter (\<lambda>l. lesson_unit_id l = unit_id v \<or> lesson_unit_id l \<in> unit_id ` set us) ls) =
        length (filter (\<lambda>l. lesson_unit_id l = unit_id v) ls) +
        length (filter (\<lambda>l. lesson_unit_id l \<in> unit_id ` set us) ls)"
    using fresh by (intro length_filter_disj) auto
  with Cons.IH [OF d] show ?case by simp
qed


lemma no_parent_without_refs:
  "\<forall>v\<in>set (units c). pre_assessment v = None \<and> post_assessment v = None \<Longrightarrow>
   get_parent_unit c i = None"
  by (simp add: get_parent_unit_def find_None_iff)

lemma no_refs_not_dangling:
  "pre_assessment u = None \<Longrightarrow> post_assessment u = None \<Longrightarrow> \<not> dangling c u"
  by (simp add: dangling_def has_ref_def)

lemma unowned_lessons:
  assumes "distinct (map unit_id (units c))" "lessons_owned c" "u \<in> set (units c)" "\<not> is_unit u"
  shows "get_lessons c (unit_id u) = []"
proof -
  have "lesson_unit_id l \<noteq> unit_id u" if "l \<in> set (lessons c)" for l
  proof
    assume eq: "lesson_unit_id l = unit_id u"
    from assms(2) that obtain v where v: "v \<in> set (units c)" "is_unit v" "unit_id v = lesson_unit_id l"
      unfolding lessons_owned_def list_all_iff list_ex_iff by blast
    from v(1) assms(3) v(3) eq assms(1) have "v = u"
      by (metis distinct_map inj_onD)
    with v(2) assms(4) show False by simp
  qed
  then show ?thesis by (simp add: get_lessons_def filter_empty_conv)
qed

lemma no_refs_block:
  assumes "\<forall>v\<in>set (units c). pre_assessment v = None \<and> post_assessment v = None"
    and "distinct (map unit_id (units c))" "lessons_owned c" "u \<in> set (units c)"
  shows "unit_block c u = unit_element u False # map lesson_element (get_lessons c (unit_id u))"
proof (cases "is_unit u")
  case True
  with assms(1,4) show ?thesis
    by (simp add: unit_block_def nested_ref_def has_ref_def no_parent_without_refs)
next
  case False
  with assms show ?thesis
    by (simp add: unit_block_def unowned_lessons no_parent_without_refs)
qed


lemma length_flat_blocks:
  "length (concat (map (\<lambda>u. unit_element u False #
       map lesson_element (filter (\<lambda>l. lesson_unit_id l = unit_id u) ls)) us)) =
   length us + sum_list (map (\<lambda>u. length (filter (\<lambda>l. lesson_unit_id l = unit_id u) ls)) us)"
  by (induction us) simp_all

lemma all_lessons_owned:
  "lessons_owned c \<Longrightarrow>
   filter (\<lambda>l. lesson_unit_id l \<in> unit_id ` set (units c)) (lessons c) = lessons c"
  unfolding lessons_owned_def list_all_iff list_ex_iff filter_id_conv by force

lemma unit_element_fun:
  "unit_element =
     (\<lambda>u indent. \<lparr>e_type = ''unit'', e_id = unit_id u, e_indent = indent, e_name = title u,
        e_availability = availability u,
        e_shown_when_unavailable = shown_when_unavailable u\<rparr>)"
  by (intro ext) (simp add: unit_element_def)

lemma lesson_element_fun:
  "lesson_element =
     (\<lambda>l. \<lparr>e_type = ''lesson'', e_id = lesson_id l, e_indent = True, e_name = lesson_title l,
        e_availability = lesson_availability l,
        e_shown_when_unavailable = lesson_shown_when_unavailable l\<rparr>)"
  by (intro ext) (simp add: lesson_element_def)

lemma flat_course_run:
  assumes norefs: "\<forall>u\<in>set (get_units c). pre_assessment u = None \<and> post_assessment u = None"
    and ids: "unique_ids c" and owned: "lessons_owned c"
  shows "\<exists>es. traverse_course c = Inr es \<and>
           length es = length (get_units c) + length (lessons c) \<and>
           es = concat (map (\<lambda>u. unit_element u False #
                           map lesson_element (get_lessons c (unit_id u))) (get_units c))"
proof -
  let ?blk = "\<lambda>u. unit_element u False # map lesson_element (get_lessons c (unit_id u))"
  let ?es = "concat (map ?blk (units c))"
  from norefs have nr: "\<forall>v\<in>set (units c). pre_assessment v = None \<and> post_assessment v = None"
    by (simp add: get_units_def)
  from ids have d: "distinct (map unit_id (units c))" by (simp add: unique_ids_def)
  have nd: "\<not> (\<exists>u\<in>set (units c). dangling c u)"
    using nr no_refs_not_dangling by blast
  have blks: "map (unit_block c) (units c) = map ?blk (units c)"
    by (rule map_cong [OF refl]) (rule no_refs_block [OF nr d owned])
  have tc: "traverse_course c = Inr ?es"
    using nd unfolding traverse_course_cases blks by simp
  have "length ?es = length (units c) + length (filter (\<lambda>l. lesson_unit_id l \<in> unit_id ` set (units c)) (lessons c))"
    unfolding get_lessons_def length_flat_blocks lessons_by_unit_count [OF d] ..
  then have len: "length ?es = length (units c) + length (lessons c)"
    by (simp only: all_lessons_owned [OF owned])
  from tc len show ?thesis unfolding get_units_def by blast
qed

text \<open>
  C7 (as amended). In a course in which no unit carries a pre- or post-assessment
  reference, identifiers are unique and every lesson belongs to a plain unit of the
  course, \<^verbatim>\<open>traverse_course\<close> returns a list whose length is the number of units plus
  the number of lessons. The list is, unit by unit in stored order, the unit's element
  (type \<^verbatim>\<open>unit\<close>, the unit's id, title, availability and flag, indent false) followed
  by one element per lesson of that unit in stored order (type \<^verbatim>\<open>lesson\<close>, the lesson's
  id, title, availability and flag, indent true). Every element of the list is a unit
  element with indent false or a lesson element with indent true.
\<close>

theorem traverse_course_without_assessment_links:
  assumes norefs: "\<forall>u\<in>set (get_units c). pre_assessment u = None \<and> post_assessment u = None"
    and ids: "unique_ids c" and owned: "lessons_owned c"
  shows "\<exists>es. traverse_course c = Inr es \<and>
           length es = length (get_units c) + length (lessons c) \<and>
           es = concat (map
                  (\<lambda>u. \<lparr>e_type = ''unit'', e_id = unit_id u, e_indent = False,
                          e_name = title u, e_availability = availability u,
                          e_shown_when_unavailable = shown_when_unavailable u\<rparr> #
                       map (\<lambda>l. \<lparr>e_type = ''lesson'', e_id = lesson_id l, e_indent = True,
                                  e_name = lesson_title l,
                                  e_availability = lesson_availability l,
                                  e_shown_when_unavailable = lesson_shown_when_unavailable l\<rparr>)
                         (get_lessons c (unit_id u)))
                  (get_units c)) \<and>
           (\<forall>e\<in>set es. (e_type e = ''unit'' \<and> \<not> e_indent e) \<or>
                       (e_type e = ''lesson'' \<and> e_indent e))"
proof -
  from flat_course_run [OF assms] obtain es where
    tc: "traverse_course c = Inr es" and
    len: "length es = length (get_units c) + length (lessons c)" and
    es: "es = concat (map (\<lambda>u. unit_element u False #
           map lesson_element (get_lessons c (unit_id u))) (get_units c))"
    by blast
  from es have explicit: "es = concat (map
                  (\<lambda>u. \<lparr>e_type = ''unit'', e_id = unit_id u, e_indent = False,
                          e_name = title u, e_availability = availability u,
                          e_shown_when_unavailable = shown_when_unavailable u\<rparr> #
                       map (\<lambda>l. \<lparr>e_type = ''lesson'', e_id = lesson_id l, e_indent = True,
                                  e_name = lesson_title l,
                                  e_availability = lesson_availability l,
                                  e_shown_when_unavailable = lesson_shown_when_unavailable l\<rparr>)
                         (get_lessons c (unit_id u)))
                  (get_units c))"
    by (simp only: unit_element_fun lesson_element_fun)
  have kinds: "(e_type e = ''unit'' \<and> \<not> e_indent e) \<or> (e_type e = ''lesson'' \<and> e_indent e)"
    if "e \<in> set es" for e
  proof -
    from that es obtain u where
      "e = unit_element u False \<or> e \<in> set (map lesson_element (get_lessons c (unit_id u)))"
      by auto
    then show ?thesis
    proof
      assume "e = unit_element u False"
      then show ?thesis by (simp add: unit_element_def)
    next
      assume "e \<in> set (map lesson_element (get_lessons c (unit_id u)))"
      then obtain l where "e = lesson_element l" by auto
      then show ?thesis by (simp add: lesson_element_def)
    qed
  qed
  from tc len explicit kinds show ?thesis by blast
qed

theorem traverse_course_without_assessment_links_witness:
  "unique_ids flat_course \<and> lessons_owned flat_course \<and>
   list_all (\<lambda>u. pre_assessment u = None \<and> post_assessment u = None) (get_units flat_course) \<and>
   (\<exists>es. traverse_course flat_course = Inr es \<and> length es = 6 \<and>
      map e_id es = [1, 10, 11, 4, 5, 12] \<and>
      map e_type es = [''unit'', ''lesson'', ''lesson'', ''unit'', ''unit'', ''lesson''] \<and>
      map e_indent es = [False, True, True, False, False, True])"
proof -
  have h1: "\<forall>u\<in>set (get_units flat_course). pre_assessment u = None \<and> post_assessment u = None"
    by (simp add: flat_course_def get_units_def mk_unit_def)
  have h2: "unique_ids flat_course"
    by (simp add: flat_course_def unique_ids_def mk_unit_def mk_lesson_def)
  have h3: "lessons_owned flat_course"
    by (simp add: flat_course_def lessons_owned_def list_all_iff list_ex_iff mk_unit_def
        mk_lesson_def is_unit_def)
  from traverse_course_without_assessment_links [OF h1 h2 h3]
  obtain es where es: "traverse_course flat_course = Inr es"
    "length es = length (get_units flat_course) + length (lessons flat_course)"
    "es = concat (map
                  (\<lambda>u. \<lparr>e_type = ''unit'', e_id = unit_id u, e_indent = False,
                          e_name = title u, e_availability = availability u,
                          e_shown_when_unavailable = shown_when_unavailable u\<rparr> #
                       map (\<lambda>l. \<lparr>e_type = ''lesson'', e_id = lesson_id l, e_indent = True,
                                  e_name = lesson_title l,
                                  e_availability = lesson_availability l,
                                  e_shown_when_unavailable = lesson_shown_when_unavailable l\<rparr>)
                         (get_lessons flat_course (unit_id u)))
                  (get_units flat_course))"
    by blast
  have len: "length es = 6" using es(2) by (simp add: flat_course_def get_units_def)
  have ids: "map e_id es = [1, 10, 11, 4, 5, 12]"
    unfolding es(3)
    by (simp add: flat_course_def get_units_def get_lessons_def mk_unit_def mk_lesson_def)
  have tys: "map e_type es = [''unit'', ''lesson'', ''lesson'', ''unit'', ''unit'', ''lesson'']"
    unfolding es(3)
    by (simp add: flat_course_def get_units_def get_lessons_def mk_unit_def mk_lesson_def)
  have ind: "map e_indent es = [False, True, True, False, False, True]"
    unfolding es(3)
    by (simp add: flat_course_def get_units_def get_lessons_def mk_unit_def mk_lesson_def)
  from h1 have h1': "list_all (\<lambda>u. pre_assessment u = None \<and> post_assessment u = None) (get_units flat_course)"
    by (simp add: list_all_iff)
  from es(1) len ids tys ind have "\<exists>es. traverse_course flat_course = Inr es \<and> length es = 6 \<and>
      map e_id es = [1, 10, 11, 4, 5, 12] \<and>
      map e_type es = [''unit'', ''lesson'', ''lesson'', ''unit'', ''unit'', ''lesson''] \<and>
      map e_indent es = [False, True, True, False, False, True]"
    by (intro exI [of _ es] conjI)
  with h2 h3 h1' show ?thesis by (intro conjI)
qed

text \<open>
  C7 as stated fails: in a course without references and with unique identifiers, a
  lesson that belongs to an assessment is not emitted. Two units and two lessons give
  three elements.
\<close>

theorem traverse_course_without_assessment_links_counterexample:
  "map pre_assessment (get_units assessment_lesson_course) = [None, None] \<and>
   map post_assessment (get_units assessment_lesson_course) = [None, None] \<and>
   unique_ids assessment_lesson_course \<and>
   length (get_units assessment_lesson_course) + length (lessons assessment_lesson_course) = 4 \<and>
   traverse_course assessment_lesson_course =
     Inr [\<lparr>e_type = ''unit'', e_id = 1, e_indent = False, e_name = ''T'',
           e_availability = JStr ''course'', e_shown_when_unavailable = JBool False\<rparr>,
          \<lparr>e_type = ''unit'', e_id = 2, e_indent = False, e_name = ''T'',
           e_availability = JStr ''course'', e_shown_when_unavailable = JBool False\<rparr>,
          \<lparr>e_type = ''lesson'', e_id = 20, e_indent = True, e_name = ''L'',
           e_availability = JStr ''private'', e_shown_when_unavailable = JBool True\<rparr>]"
  by (simp add: traverse_course_def get_units_def assessment_lesson_course_def
      traverse_unit_def is_assessment_def is_unit_def get_parent_unit_def has_ref_def
      get_lessons_def add_lesson_def mk_unit_def mk_lesson_def unique_ids_def
      unit_element_def lesson_element_def)

subsection \<open>A unit with a pre- and a post-assessment\<close>

lemma find_unit_by_id_Some:
  "find_unit_by_id c i = Some a \<Longrightarrow> a \<in> set (units c) \<and> unit_id a = i"
  unfolding find_unit_by_id_def find_Some_iff by (metis nth_mem)

lemma has_ref_Some: "has_ref r \<Longrightarrow> r = Some (the r)"
  by (cases r) (simp_all add: has_ref_def)

lemma referenced_has_parent:
  "u \<in> set (units c) \<Longrightarrow> pre_assessment u = Some i \<or> post_assessment u = Some i \<Longrightarrow>
   get_parent_unit c i \<noteq> None"
  by (auto simp: get_parent_unit_def find_None_iff)

lemma indented_in_block:
  "x \<in> set (nested_ref c r) \<Longrightarrow> e_indent x"
  "x \<in> set (map lesson_element ls) \<Longrightarrow> e_indent x"
proof -
  show "x \<in> set (nested_ref c r) \<Longrightarrow> e_indent x"
    by (cases "has_ref r"; cases "find_unit_by_id c (the r)")
       (simp_all add: nested_ref_def unit_element_def)
  show "x \<in> set (map lesson_element ls) \<Longrightarrow> e_indent x"
    by (auto simp: lesson_element_def)
qed

lemma top_level_in_block:
  assumes "e \<in> set (unit_block c v)" "\<not> e_indent e"
  shows "e = unit_element v False \<and> \<not> (is_assessment v \<and> get_parent_unit c (unit_id v) \<noteq> None)"
proof (cases "is_assessment v \<and> get_parent_unit c (unit_id v) \<noteq> None")
  case True
  with assms(1) show ?thesis by (simp add: unit_block_def)
next
  case shown: False
  show ?thesis
  proof (cases "is_unit v")
    case True
    with assms(1) have "e = unit_element v False \<or>
        e \<in> set (nested_ref c (pre_assessment v)) \<or>
        e \<in> set (map lesson_element (get_lessons c (unit_id v))) \<or>
        e \<in> set (nested_ref c (post_assessment v))"
      by (simp add: unit_block_def is_unit_not_assessment)
    then show ?thesis
    proof (elim disjE)
      assume "e = unit_element v False"
      with shown show ?thesis by simp
    next
      assume "e \<in> set (nested_ref c (pre_assessment v))"
      with indented_in_block(1) assms(2) show ?thesis by blast
    next
      assume "e \<in> set (map lesson_element (get_lessons c (unit_id v)))"
      with indented_in_block(2) assms(2) show ?thesis by blast
    next
      assume "e \<in> set (nested_ref c (post_assessment v))"
      with indented_in_block(1) assms(2) show ?thesis by blast
    qed
  next
    case False
    with shown assms(1) show ?thesis by (auto simp: unit_block_def split: if_splits)
  qed
qed

lemma block_with_both:
  assumes "is_unit u" "find_unit_by_id c (the (pre_assessment u)) = Some a"
    "find_unit_by_id c (the (post_assessment u)) = Some b"
    "has_ref (pre_assessment u)" "has_ref (post_assessment u)"
  shows "unit_block c u = [unit_element u False, unit_element a True]
           @ map lesson_element (get_lessons c (unit_id u)) @ [unit_element b True]"
  using assms by (simp add: unit_block_def nested_ref_def is_unit_not_assessment)

lemma find_unit_by_id_unique:
  "distinct (map unit_id (units c)) \<Longrightarrow> v \<in> set (units c) \<Longrightarrow> a \<in> set (units c) \<Longrightarrow>
   unit_id v = unit_id a \<Longrightarrow> v = a"
  by (metis distinct_map inj_onD)

lemma top_level_is_unit:
  assumes "e \<in> set (concat (map (unit_block c) (units c)))" "\<not> e_indent e"
  shows "e_type e = ''unit''"
proof -
  from assms(1) obtain v where "e \<in> set (unit_block c v)" by auto
  from top_level_in_block [OF this assms(2)] have "e = unit_element v False" by simp
  then show ?thesis by (simp add: unit_element_def)
qed

lemma referenced_assessment_not_top_level:
  assumes es: "e \<in> set (concat (map (unit_block c) (units c)))"
    and top: "\<not> e_indent e"
    and u: "u \<in> set (units c)" "pre_assessment u = Some i \<or> post_assessment u = Some i"
    and a: "find_unit_by_id c i = Some a" "is_assessment a"
    and d: "distinct (map unit_id (units c))"
  shows "e_id e \<noteq> i"
proof
  assume e: "e_id e = i"
  from es obtain v where v: "v \<in> set (units c)" "e \<in> set (unit_block c v)" by auto
  from top_level_in_block [OF v(2) top]
  have ev: "e = unit_element v False"
    and shown: "\<not> (is_assessment v \<and> get_parent_unit c (unit_id v) \<noteq> None)" by simp_all
  from ev e have "unit_id v = i" by (simp add: unit_element_def)
  moreover from find_unit_by_id_Some [OF a(1)] have "a \<in> set (units c)" "unit_id a = i" by simp_all
  ultimately have "v = a" using d v(1) by (intro find_unit_by_id_unique [of c]) simp_all
  with shown a(2) \<open>unit_id a = i\<close> have "get_parent_unit c i = None" by simp
  with referenced_has_parent [OF u] show False by simp
qed

lemma unit_with_assessments_run:
  assumes tc: "traverse_course c = Inr es"
    and u: "u \<in> set (get_units c)" "is_unit u"
    and refs: "has_ref (pre_assessment u)" "has_ref (post_assessment u)"
  shows "\<exists>a b xs ys.
           find_unit_by_id c (the (pre_assessment u)) = Some a \<and>
           find_unit_by_id c (the (post_assessment u)) = Some b \<and>
           es = xs @ [unit_element u False, unit_element a True]
                  @ map lesson_element (get_lessons c (unit_id u))
                  @ [unit_element b True] @ ys \<and>
           (unique_ids c \<and> is_assessment a \<and> is_assessment b \<longrightarrow>
              (\<forall>e\<in>set es. \<not> e_indent e \<longrightarrow>
                 e_type e = ''unit'' \<and> e_id e \<noteq> unit_id a \<and> e_id e \<noteq> unit_id b))"
proof -
  from u(1) have uin: "u \<in> set (units c)" by (simp add: get_units_def)
  from tc have nd: "\<not> (\<exists>v\<in>set (units c). dangling c v)"
    and es: "es = concat (map (unit_block c) (units c))"
    by (simp_all add: traverse_course_cases split: if_splits)
  from nd uin have "\<not> dangling c u" by blast
  with u(2) refs obtain a b
    where a: "find_unit_by_id c (the (pre_assessment u)) = Some a"
      and b: "find_unit_by_id c (the (post_assessment u)) = Some b"
    by (auto simp: dangling_def)
  from uin obtain us1 us2 where split: "units c = us1 @ u # us2"
    by (auto simp: in_set_conv_decomp)
  have layout: "es = concat (map (unit_block c) us1)
      @ [unit_element u False, unit_element a True]
      @ map lesson_element (get_lessons c (unit_id u)) @ [unit_element b True]
      @ concat (map (unit_block c) us2)"
    unfolding es split by (simp add: block_with_both [OF u(2) a b refs])
  have ida: "unit_id a = the (pre_assessment u)" and idb: "unit_id b = the (post_assessment u)"
    using find_unit_by_id_Some [OF a] find_unit_by_id_Some [OF b] by simp_all
  have top: "e_type e = ''unit'' \<and> e_id e \<noteq> unit_id a \<and> e_id e \<noteq> unit_id b"
    if wf: "unique_ids c" "is_assessment a" "is_assessment b"
      and e: "e \<in> set es" "\<not> e_indent e" for e
  proof -
    from wf(1) have d: "distinct (map unit_id (units c))" by (simp add: unique_ids_def)
    from e es have mem: "e \<in> set (concat (map (unit_block c) (units c)))" by (simp only:)
    have pa: "pre_assessment u = Some (unit_id a) \<or> post_assessment u = Some (unit_id a)"
      using has_ref_Some [OF refs(1)] ida by simp
    have pb: "pre_assessment u = Some (unit_id b) \<or> post_assessment u = Some (unit_id b)"
      using has_ref_Some [OF refs(2)] idb by simp
    from a ida have fa: "find_unit_by_id c (unit_id a) = Some a" by simp
    from b idb have fb: "find_unit_by_id c (unit_id b) = Some b" by simp
    from top_level_is_unit [OF mem e(2)]
      referenced_assessment_not_top_level [OF mem e(2) uin pa fa wf(2) d]
      referenced_assessment_not_top_level [OF mem e(2) uin pb fb wf(3) d]
    show ?thesis by (intro conjI)
  qed
  from a b layout top show ?thesis by blast
qed

text \<open>
  C2. When \<^verbatim>\<open>traverse_course\<close> returns a list, every plain unit of the course that
  has a pre-assessment and a post-assessment reference contributes one contiguous run:
  the unit's element (type \<^verbatim>\<open>unit\<close>, the unit's id, title, availability and flag)
  with indent false, the pre-assessment's element with indent true, one element per
  lesson of the unit in stored order (type \<^verbatim>\<open>lesson\<close>, the lesson's id, title,
  availability and flag) each with indent true, then the post-assessment's element with
  indent true. When identifiers are unique and the two referenced units are
  assessments, every top-level element of the output (indent false) is a unit element
  whose id is neither the pre-assessment's nor the post-assessment's: neither appears
  again at top level.
\<close>

theorem traverse_course_unit_with_assessments:
  assumes tc: "traverse_course c = Inr es"
    and u: "u \<in> set (get_units c)" "is_unit u"
    and refs: "has_ref (pre_assessment u)" "has_ref (post_assessment u)"
  shows "\<exists>a b xs ys.
           find_unit_by_id c (the (pre_assessment u)) = Some a \<and>
           find_unit_by_id c (the (post_assessment u)) = Some b \<and>
           es = xs @
                [\<lparr>e_type = ''unit'', e_id = unit_id u, e_indent = False, e_name = title u,
                  e_availability = availability u,
                  e_shown_when_unavailable = shown_when_unavailable u\<rparr>,
                 \<lparr>e_type = ''unit'', e_id = unit_id a, e_indent = True, e_name = title a,
                  e_availability = availability a,
                  e_shown_when_unavailable = shown_when_unavailable a\<rparr>] @
                map (\<lambda>l. \<lparr>e_type = ''lesson'', e_id = lesson_id l, e_indent = True,
                          e_name = lesson_title l, e_availability = lesson_availability l,
                          e_shown_when_unavailable = lesson_shown_when_unavailable l\<rparr>)
                  (get_lessons c (unit_id u)) @
                [\<lparr>e_type = ''unit'', e_id = unit_id b, e_indent = True, e_name = title b,
                  e_availability = availability b,
                  e_shown_when_unavailable = shown_when_unavailable b\<rparr>] @ ys \<and>
           (unique_ids c \<and> is_assessment a \<and> is_assessment b \<longrightarrow>
              (\<forall>e\<in>set es. \<not> e_indent e \<longrightarrow>
                 e_type e = ''unit'' \<and> e_id e \<noteq> unit_id a \<and> e_id e \<noteq> unit_id b))"
  using unit_with_assessments_run [OF assms]
  by (simp only: unit_element_fun lesson_element_fun)

lemma sample_course_flat:
  "traverse_course sample_course =
     Inr [unit_element (mk_unit 1 TYPE_UNIT (Some 2) (Some 3)) False,
          unit_element (mk_unit 2 TYPE_ASSESSMENT None None) True,
          lesson_element (mk_lesson 10 1), lesson_element (mk_lesson 11 1),
          unit_element (mk_unit 3 TYPE_ASSESSMENT None None) True,
          unit_element (mk_unit 4 TYPE_ASSESSMENT None None) False,
          unit_element (mk_unit 5 TYPE_UNIT None None) False,
          lesson_element (mk_lesson 12 5)]"
  by (simp add: traverse_course_def get_units_def sample_course_def traverse_unit_def
      is_assessment_def is_unit_def get_parent_unit_def has_ref_def find_unit_by_id_def
      get_lessons_def add_lesson_def mk_unit_def mk_lesson_def)

lemma sample_course_unique_ids: "unique_ids sample_course"
  by (simp add: sample_course_def unique_ids_def mk_unit_def mk_lesson_def)

theorem traverse_course_unit_with_assessments_witness:
  "mk_unit 1 TYPE_UNIT (Some 2) (Some 3) \<in> set (get_units sample_course) \<and>
   is_unit (mk_unit 1 TYPE_UNIT (Some 2) (Some 3)) \<and>
   has_ref (pre_assessment (mk_unit 1 TYPE_UNIT (Some 2) (Some 3))) \<and>
   has_ref (post_assessment (mk_unit 1 TYPE_UNIT (Some 2) (Some 3))) \<and>
   unique_ids sample_course \<and>
   (\<exists>es a b xs ys.
      traverse_course sample_course = Inr es \<and>
      find_unit_by_id sample_course 2 = Some a \<and> is_assessment a \<and> unit_id a = 2 \<and>
      find_unit_by_id sample_course 3 = Some b \<and> is_assessment b \<and> unit_id b = 3 \<and>
      es = xs @
           [\<lparr>e_type = ''unit'', e_id = 1, e_indent = False, e_name = ''T'',
             e_availability = JStr ''course'', e_shown_when_unavailable = JBool False\<rparr>,
            \<lparr>e_type = ''unit'', e_id = unit_id a, e_indent = True, e_name = title a,
             e_availability = availability a,
             e_shown_when_unavailable = shown_when_unavailable a\<rparr>] @
           map (\<lambda>l. \<lparr>e_type = ''lesson'', e_id = lesson_id l, e_indent = True,
                     e_name = lesson_title l, e_availability = lesson_availability l,
                     e_shown_when_unavailable = lesson_shown_when_unavailable l\<rparr>)
             [mk_lesson 10 1, mk_lesson 11 1] @
           [\<lparr>e_type = ''unit'', e_id = unit_id b, e_indent = True, e_name = title b,
             e_availability = availability b,
             e_shown_when_unavailable = shown_when_unavailable b\<rparr>] @ ys \<and>
      list_all (\<lambda>e. e_indent e \<or> e_type e = ''unit'' \<and> e_id e \<noteq> 2 \<and> e_id e \<noteq> 3) es)"
proof -
  let ?u = "mk_unit 1 TYPE_UNIT (Some 2) (Some 3)"
  have uin: "?u \<in> set (get_units sample_course)"
    by (simp add: get_units_def sample_course_def)
  have isu: "is_unit ?u" by (simp add: is_unit_def mk_unit_def)
  have r1: "has_ref (pre_assessment ?u)" and r2: "has_ref (post_assessment ?u)"
    by (simp_all add: has_ref_def mk_unit_def)
  have pre: "the (pre_assessment ?u) = 2" and post: "the (post_assessment ?u) = 3"
    by (simp_all add: mk_unit_def)
  have fields: "unit_id ?u = 1" "title ?u = ''T''" "availability ?u = JStr ''course''"
    "shown_when_unavailable ?u = JBool False"
    by (simp_all add: mk_unit_def)
  have ls: "get_lessons sample_course 1 = [mk_lesson 10 1, mk_lesson 11 1]"
    by (simp add: get_lessons_def sample_course_def mk_lesson_def)
  from traverse_course_unit_with_assessments [OF sample_course_flat uin isu r1 r2]
  obtain es a b xs ys where
    es: "traverse_course sample_course = Inr es" and
    a: "find_unit_by_id sample_course 2 = Some a" and
    b: "find_unit_by_id sample_course 3 = Some b" and
    layout: "es = xs @
           [\<lparr>e_type = ''unit'', e_id = 1, e_indent = False, e_name = ''T'',
             e_availability = JStr ''course'', e_shown_when_unavailable = JBool False\<rparr>,
            \<lparr>e_type = ''unit'', e_id = unit_id a, e_indent = True, e_name = title a,
             e_availability = availability a,
             e_shown_when_unavailable = shown_when_unavailable a\<rparr>] @
           map (\<lambda>l. \<lparr>e_type = ''lesson'', e_id = lesson_id l, e_indent = True,
                     e_name = lesson_title l, e_availability = lesson_availability l,
                     e_shown_when_unavailable = lesson_shown_when_unavailable l\<rparr>)
             [mk_lesson 10 1, mk_lesson 11 1] @
           [\<lparr>e_type = ''unit'', e_id = unit_id b, e_indent = True, e_name = title b,
             e_availability = availability b,
             e_shown_when_unavailable = shown_when_unavailable b\<rparr>] @ ys" and
    top: "unique_ids sample_course \<and> is_assessment a \<and> is_assessment b \<longrightarrow>
       (\<forall>e\<in>set es. \<not> e_indent e \<longrightarrow>
          e_type e = ''unit'' \<and> e_id e \<noteq> unit_id a \<and> e_id e \<noteq> unit_id b)"
    unfolding pre post fields ls using sample_course_flat by blast
  from a have a_eq: "a = mk_unit 2 TYPE_ASSESSMENT None None"
    by (simp add: find_unit_by_id_def sample_course_def mk_unit_def)
  from b have b_eq: "b = mk_unit 3 TYPE_ASSESSMENT None None"
    by (simp add: find_unit_by_id_def sample_course_def mk_unit_def)
  have asa: "is_assessment a" and asb: "is_assessment b"
    unfolding a_eq b_eq by (simp_all add: is_assessment_def mk_unit_def)
  have ida: "unit_id a = 2" and idb: "unit_id b = 3"
    unfolding a_eq b_eq by (simp_all add: mk_unit_def)
  from top sample_course_unique_ids asa asb
  have all: "list_all (\<lambda>e. e_indent e \<or> e_type e = ''unit'' \<and> e_id e \<noteq> 2 \<and> e_id e \<noteq> 3) es"
    unfolding list_all_iff ida idb by blast
  from es a asa ida b asb idb layout all
  have "\<exists>es a b xs ys.
      traverse_course sample_course = Inr es \<and>
      find_unit_by_id sample_course 2 = Some a \<and> is_assessment a \<and> unit_id a = 2 \<and>
      find_unit_by_id sample_course 3 = Some b \<and> is_assessment b \<and> unit_id b = 3 \<and>
      es = xs @
           [\<lparr>e_type = ''unit'', e_id = 1, e_indent = False, e_name = ''T'',
             e_availability = JStr ''course'', e_shown_when_unavailable = JBool False\<rparr>,
            \<lparr>e_type = ''unit'', e_id = unit_id a, e_indent = True, e_name = title a,
             e_availability = availability a,
             e_shown_when_unavailable = shown_when_unavailable a\<rparr>] @
           map (\<lambda>l. \<lparr>e_type = ''lesson'', e_id = lesson_id l, e_indent = True,
                     e_name = lesson_title l, e_availability = lesson_availability l,
                     e_shown_when_unavailable = lesson_shown_when_unavailable l\<rparr>)
             [mk_lesson 10 1, mk_lesson 11 1] @
           [\<lparr>e_type = ''unit'', e_id = unit_id b, e_indent = True, e_name = title b,
             e_availability = availability b,
             e_shown_when_unavailable = shown_when_unavailable b\<rparr>] @ ys \<and>
      list_all (\<lambda>e. e_indent e \<or> e_type e = ''unit'' \<and> e_id e \<noteq> 2 \<and> e_id e \<noteq> 3) es"
    by (intro exI conjI)
  with uin isu r1 r2 sample_course_unique_ids show ?thesis by (intro conjI)
qed

subsection \<open>The course-level settings\<close>

lemma put_authorized:
  "put True True p st =
     (case put_element_settings (p_element_settings p) (stored_course st) of
        Inl e \<Rightarrow> (Raised e, course_level_calls p st, course_level_store p st)
      | Inr c' \<Rightarrow>
          (Sent 200 ''Saved.'', course_level_calls p st @ [Save_course c'],
           (course_level_store p st)\<lparr>stored_course := c'\<rparr>))"
  by (simp add: put_def Let_def course_level_calls_def course_level_store_def
      merged_settings_def split: sum.splits)

lemma put_refused:
  "\<not> (xsrf_ok \<and> allowed) \<Longrightarrow>
   put xsrf_ok allowed p st =
     (if \<not> xsrf_ok then Xsrf_rejected else Sent 401 ''Access denied.'', [], st)"
  by (simp add: put_def)

lemma course_level_store_fields:
  "environ (course_level_store p st) = merged_settings p (environ st)"
  "stored_course (course_level_store p st) = stored_course st"
  "course_availability (course_level_store p st) =
     (if truthy (dict_get (p_course_availability p))
      then dict_get (p_course_availability p) else course_availability st)"
  by (simp_all add: course_level_store_def Let_def)

lemma put_store_fields:
  "environ (snd (snd (put True True p st))) = merged_settings p (environ st)"
  "course_availability (snd (snd (put True True p st))) =
     (if truthy (dict_get (p_course_availability p))
      then dict_get (p_course_availability p) else course_availability st)"
  by (simp_all add: put_authorized course_level_store_fields split: sum.splits)

lemma put_calls:
  "fst (snd (put True True p st)) =
     course_level_calls p st @
       (case put_element_settings (p_element_settings p) (stored_course st) of
          Inl e \<Rightarrow> [] | Inr c' \<Rightarrow> [Save_course c'])"
  by (simp add: put_authorized split: sum.splits)

lemma put_setter_calls:
  "filter is_setter_call (fst (snd (put True True p st))) =
     (if truthy (dict_get (p_course_availability p))
      then [Set_course_availability (dict_get (p_course_availability p))] else [])"
  by (simp add: put_authorized course_level_calls_def split: sum.splits)

text \<open>
  C5. When the payload has no \<^verbatim>\<open>whitelist\<close> key, the whitelist text stored after
  \<^verbatim>\<open>put\<close> is the one stored before; when the payload carries \<^verbatim>\<open>whitelist\<close> with
  the empty string, the stored whitelist text is the empty string. In both cases the
  settings are saved (whatever the loop over the entries does afterwards).
\<close>

theorem put_whitelist:
  "(p_whitelist p = None \<longrightarrow>
      reg_form_whitelist (environ (snd (snd (put True True p st)))) =
      reg_form_whitelist (environ st)) \<and>
   (p_whitelist p = Some (JStr []) \<longrightarrow>
      reg_form_whitelist (environ (snd (snd (put True True p st)))) = JStr []) \<and>
   Save_settings (environ (snd (snd (put True True p st)))) \<in> set (fst (snd (put True True p st)))"
proof -
  have "Save_settings (merged_settings p (environ st)) \<in> set (fst (snd (put True True p st)))"
    by (simp add: put_calls course_level_calls_def)
  then show ?thesis
    by (simp add: put_store_fields merged_settings_def dict_get_def Let_def)
qed

theorem put_whitelist_witness:
  "p_whitelist empty_payload = None \<and>
   reg_form_whitelist (environ (snd (snd (put True True empty_payload sample_store)))) =
     JStr ''a@example.com'' \<and>
   p_whitelist (empty_payload\<lparr>p_whitelist := Some (JStr [])\<rparr>) = Some (JStr []) \<and>
   reg_form_whitelist (environ (snd (snd (put True True
     (empty_payload\<lparr>p_whitelist := Some (JStr [])\<rparr>) sample_store)))) = JStr []"
  using put_whitelist [of empty_payload sample_store]
    put_whitelist [of "empty_payload\<lparr>p_whitelist := Some (JStr [])\<rparr>" sample_store]
  by (simp add: empty_payload_def sample_store_def)

text \<open>
  C8. \<^verbatim>\<open>put\<close> calls \<^verbatim>\<open>set_course_availability\<close> exactly when the payload carries
  a \<^verbatim>\<open>course_availability\<close> value that passes the truth test (for a string: that
  is not empty), once and with that value; when the key is absent or its value is the
  empty string, the setter is not called and the course-wide policy is unchanged.
\<close>

theorem put_course_availability:
  "filter is_setter_call (fst (snd (put True True p st))) =
     (if truthy (dict_get (p_course_availability p))
      then [Set_course_availability (dict_get (p_course_availability p))] else []) \<and>
   (Set_course_availability v \<in> set (fst (snd (put True True p st))) \<longleftrightarrow>
      p_course_availability p = Some v \<and> truthy v) \<and>
   (p_course_availability p = Some (JStr s) \<longrightarrow>
      (Set_course_availability (JStr s) \<in> set (fst (snd (put True True p st))) \<longleftrightarrow> s \<noteq> [])) \<and>
   (p_course_availability p = None \<or> p_course_availability p = Some (JStr []) \<longrightarrow>
      filter is_setter_call (fst (snd (put True True p st))) = [] \<and>
      course_availability (snd (snd (put True True p st))) = course_availability st)"
proof -
  have mem: "Set_course_availability v \<in> set (fst (snd (put True True p st))) \<longleftrightarrow>
      p_course_availability p = Some v \<and> truthy v" for v
    by (cases "p_course_availability p")
       (auto simp: put_authorized course_level_calls_def dict_get_def split: sum.splits)
  have str: "p_course_availability p = Some (JStr s) \<longrightarrow>
      (Set_course_availability (JStr s) \<in> set (fst (snd (put True True p st))) \<longleftrightarrow> s \<noteq> [])"
    using mem [of "JStr s"] by simp
  have none: "p_course_availability p = None \<or> p_course_availability p = Some (JStr []) \<longrightarrow>
      filter is_setter_call (fst (snd (put True True p st))) = [] \<and>
      course_availability (snd (snd (put True True p st))) = course_availability st"
    by (auto simp: put_setter_calls put_store_fields dict_get_def)
  from put_setter_calls [of p st] mem str none show ?thesis by (intro conjI)
qed

theorem put_course_availability_witness:
  "p_course_availability (empty_payload\<lparr>p_course_availability := Some (JStr ''public'')\<rparr>) =
     Some (JStr ''public'') \<and>
   Set_course_availability (JStr ''public'') \<in> set (fst (snd (put True True
     (empty_payload\<lparr>p_course_availability := Some (JStr ''public'')\<rparr>) sample_store))) \<and>
   p_course_availability empty_payload = None \<and>
   filter is_setter_call (fst (snd (put True True empty_payload sample_store))) = [] \<and>
   course_availability (snd (snd (put True True empty_payload sample_store))) = JStr ''private''"
proof -
  let ?p = "empty_payload\<lparr>p_course_availability := Some (JStr ''public'')\<rparr>"
  note t1 = put_course_availability [of ?p sample_store "JStr ''public''" "''public''"]
  note t2 = put_course_availability [of empty_payload sample_store JNull "[]"]
  have a: "p_course_availability ?p = Some (JStr ''public'')" by simp
  have tr: "truthy (JStr ''public'')" by simp
  from t1 [THEN conjunct2, THEN conjunct1] a tr
  have m: "Set_course_availability (JStr ''public'') \<in> set (fst (snd (put True True ?p sample_store)))"
    by blast
  have n: "p_course_availability empty_payload = None" by (simp add: empty_payload_def)
  from t2 [THEN conjunct2, THEN conjunct2, THEN conjunct2] n
  have f: "filter is_setter_call (fst (snd (put True True empty_payload sample_store))) = []"
    and "course_availability (snd (snd (put True True empty_payload sample_store))) =
      course_availability sample_store"
    by blast+
  moreover have "course_availability sample_store = JStr ''private''"
    by (simp add: sample_store_def)
  ultimately have c: "course_availability (snd (snd (put True True empty_payload sample_store))) =
      JStr ''private''" by (simp only:)
  from a m n f c show ?thesis by blast
qed

text \<open>
  C9. For \<^verbatim>\<open>whitelist\<close> and \<^verbatim>\<open>show_lessons_in_syllabus\<close>, a payload that carries
  the key with \<^verbatim>\<open>null\<close> is handled exactly as a payload without the key: the whole
  result of \<^verbatim>\<open>put\<close> is the same, and the stored whitelist text and the stored flag
  are left as they were.
\<close>

theorem put_null_as_absent:
  "put xsrf_ok allowed (p\<lparr>p_whitelist := Some JNull\<rparr>) st =
     put xsrf_ok allowed (p\<lparr>p_whitelist := None\<rparr>) st \<and>
   put xsrf_ok allowed (p\<lparr>p_show_lessons_in_syllabus := Some JNull\<rparr>) st =
     put xsrf_ok allowed (p\<lparr>p_show_lessons_in_syllabus := None\<rparr>) st \<and>
   (p_whitelist p = Some JNull \<or> p_whitelist p = None \<longrightarrow>
      reg_form_whitelist (environ (snd (snd (put xsrf_ok allowed p st)))) =
      reg_form_whitelist (environ st)) \<and>
   (p_show_lessons_in_syllabus p = Some JNull \<or> p_show_lessons_in_syllabus p = None \<longrightarrow>
      course_show_lessons_in_syllabus (environ (snd (snd (put xsrf_ok allowed p st)))) =
      course_show_lessons_in_syllabus (environ st))"
proof -
  have a: "put xsrf_ok allowed (p\<lparr>p_whitelist := Some JNull\<rparr>) st =
     put xsrf_ok allowed (p\<lparr>p_whitelist := None\<rparr>) st"
    by (simp add: put_def dict_get_def)
  have b: "put xsrf_ok allowed (p\<lparr>p_show_lessons_in_syllabus := Some JNull\<rparr>) st =
     put xsrf_ok allowed (p\<lparr>p_show_lessons_in_syllabus := None\<rparr>) st"
    by (simp add: put_def dict_get_def)
  have c: "p_whitelist p = Some JNull \<or> p_whitelist p = None \<longrightarrow>
      reg_form_whitelist (environ (snd (snd (put xsrf_ok allowed p st)))) =
      reg_form_whitelist (environ st)"
    by (cases "xsrf_ok \<and> allowed")
       (auto simp: put_store_fields put_refused merged_settings_def dict_get_def Let_def)
  have d: "p_show_lessons_in_syllabus p = Some JNull \<or> p_show_lessons_in_syllabus p = None \<longrightarrow>
      course_show_lessons_in_syllabus (environ (snd (snd (put xsrf_ok allowed p st)))) =
      course_show_lessons_in_syllabus (environ st)"
    by (cases "xsrf_ok \<and> allowed")
       (auto simp: put_store_fields put_refused merged_settings_def dict_get_def Let_def)
  from a b c d show ?thesis by (intro conjI)
qed

theorem put_null_as_absent_witness:
  "p_whitelist (empty_payload\<lparr>p_whitelist := Some JNull,
      p_show_lessons_in_syllabus := Some JNull\<rparr>) = Some JNull \<and>
   p_show_lessons_in_syllabus (empty_payload\<lparr>p_whitelist := Some JNull,
      p_show_lessons_in_syllabus := Some JNull\<rparr>) = Some JNull \<and>
   reg_form_whitelist (environ (snd (snd (put True True (empty_payload\<lparr>p_whitelist := Some JNull,
      p_show_lessons_in_syllabus := Some JNull\<rparr>) sample_store)))) = JStr ''a@example.com'' \<and>
   course_show_lessons_in_syllabus (environ (snd (snd (put True True
      (empty_payload\<lparr>p_whitelist := Some JNull,
      p_show_lessons_in_syllabus := Some JNull\<rparr>) sample_store)))) = Some False"
proof -
  let ?p = "empty_payload\<lparr>p_whitelist := Some JNull, p_show_lessons_in_syllabus := Some JNull\<rparr>"
  note t = put_null_as_absent [of True True ?p sample_store]
  have w: "p_whitelist ?p = Some JNull" and s: "p_show_lessons_in_syllabus ?p = Some JNull"
    by simp_all
  from t [THEN conjunct2, THEN conjunct2, THEN conjunct1] w
  have a: "reg_form_whitelist (environ (snd (snd (put True True ?p sample_store)))) =
      reg_form_whitelist (environ sample_store)" by blast
  from t [THEN conjunct2, THEN conjunct2, THEN conjunct2] s
  have b: "course_show_lessons_in_syllabus (environ (snd (snd (put True True ?p sample_store)))) =
      course_show_lessons_in_syllabus (environ sample_store)" by blast
  have c: "reg_form_whitelist (environ sample_store) = JStr ''a@example.com''"
    "course_show_lessons_in_syllabus (environ sample_store) = Some False"
    by (simp_all add: sample_store_def)
  from w s a b c show ?thesis by (simp only:)
qed

subsection \<open>The loop over the entries\<close>

lemma put_item_cases:
  "put_item x c = (case item_error x of Some e \<Rightarrow> Inl e | None \<Rightarrow> Inr (item_effect x c))"
  by (cases "item_type x"; cases "item_id x")
     (simp_all add: put_item_def item_error_def item_effect_def split: option.splits)

lemma put_items_cases:
  "put_items xs c =
     (case items_error xs of Some e \<Rightarrow> Inl e | None \<Rightarrow> Inr (fold item_effect xs c))"
  by (induction xs arbitrary: c) (simp_all add: put_item_cases split: option.splits)

lemma item_error_kinds: "item_error x = Some e \<Longrightarrow> e = ValueError \<or> e = KeyError"
  by (cases "item_type x"; cases "item_id x")
     (simp_all add: item_error_def split: if_splits)

lemma items_error_kinds: "items_error xs = Some e \<Longrightarrow> e = ValueError \<or> e = KeyError"
  by (induction xs) (auto split: option.splits dest: item_error_kinds)

lemma items_error_None: "items_error xs = None \<longleftrightarrow> (\<forall>x\<in>set xs. item_error x = None)"
  by (induction xs) (simp_all split: option.splits)

lemma bad_type_error:
  "item_type x = Some t \<Longrightarrow> t \<noteq> ''unit'' \<Longrightarrow> t \<noteq> ''lesson'' \<Longrightarrow> item_error x = Some ValueError"
  by (simp add: item_error_def)

lemma course_level_saves:
  "filter is_save_call (course_level_calls p st) = [Save_settings (merged_settings p (environ st))]"
  by (simp add: course_level_calls_def)

lemma put_raises:
  assumes "put_element_settings (p_element_settings p) (stored_course st) = Inl e"
  shows "put True True p st = (Raised e, course_level_calls p st, course_level_store p st)"
  using assms by (simp add: put_authorized)

text \<open>
  C1 (as amended). When the \<^verbatim>\<open>element_settings\<close> list of the payload contains an entry
  whose type is neither \<^verbatim>\<open>unit\<close> nor \<^verbatim>\<open>lesson\<close>, \<^verbatim>\<open>put\<close> ends with an exception
  (\<^verbatim>\<open>ValueError\<close>, or \<^verbatim>\<open>KeyError\<close> from an earlier entry that lacks a key). By then
  the settings save has occurred, and it is the only save: the unit/lesson tree is not
  saved, and the stored tree is the one stored before.
\<close>

theorem put_invalid_type:
  assumes "p_element_settings p = ES_list items" "x \<in> set items"
    and "item_type x = Some t" "t \<noteq> ''unit''" "t \<noteq> ''lesson''"
  shows "\<exists>e. fst (put True True p st) = Raised e \<and> (e = ValueError \<or> e = KeyError) \<and>
           filter is_save_call (fst (snd (put True True p st))) =
             [Save_settings (environ (snd (snd (put True True p st))))] \<and>
           stored_course (snd (snd (put True True p st))) = stored_course st"
proof -
  from assms(3-5) have "item_error x = Some ValueError" by (rule bad_type_error)
  with assms(2) have "items_error items \<noteq> None" by (auto simp: items_error_None)
  then obtain e where e: "items_error items = Some e" by blast
  with assms(1) have "put_element_settings (p_element_settings p) (stored_course st) = Inl e"
    by (simp add: put_element_settings_def put_items_cases)
  from put_raises [OF this] items_error_kinds [OF e] show ?thesis
    by (simp add: course_level_saves course_level_store_fields)
qed

theorem put_invalid_type_witness:
  "mk_item ''section'' 1 \<in> set [mk_item ''unit'' 1, mk_item ''section'' 1] \<and>
   item_type (mk_item ''section'' 1) = Some ''section'' \<and>
   ''section'' \<noteq> ''unit'' \<and> ''section'' \<noteq> ''lesson'' \<and>
   (\<exists>e. fst (put True True
       (empty_payload\<lparr>p_element_settings := ES_list [mk_item ''unit'' 1, mk_item ''section'' 1]\<rparr>)
       sample_store) = Raised e) \<and>
   stored_course (snd (snd (put True True
       (empty_payload\<lparr>p_element_settings := ES_list [mk_item ''unit'' 1, mk_item ''section'' 1]\<rparr>)
       sample_store))) = sample_course"
proof -
  let ?items = "[mk_item ''unit'' 1, mk_item ''section'' 1]"
  let ?p = "empty_payload\<lparr>p_element_settings := ES_list ?items\<rparr>"
  have a: "p_element_settings ?p = ES_list ?items" by simp
  have b: "mk_item ''section'' 1 \<in> set ?items" by simp
  have c: "item_type (mk_item ''section'' 1) = Some ''section''" by (simp add: mk_item_def)
  have d: "''section'' \<noteq> ''unit''" "''section'' \<noteq> ''lesson''" by simp_all
  from put_invalid_type [OF a b c d, of sample_store]
  have r: "\<exists>e. fst (put True True ?p sample_store) = Raised e"
    and s: "stored_course (snd (snd (put True True ?p sample_store))) = stored_course sample_store"
    by blast+
  have "stored_course sample_store = sample_course" by (simp add: sample_store_def)
  with s have s': "stored_course (snd (snd (put True True ?p sample_store))) = sample_course"
    by (simp only:)
  from b c d r s' show ?thesis by blast
qed

text \<open>
  C1 as stated fails: with a single entry of type \<^verbatim>\<open>section\<close> the request ends with
  \<^verbatim>\<open>ValueError\<close>, and the settings save has already been called.
\<close>

theorem put_invalid_type_counterexample:
  "fst (put True True
     (empty_payload\<lparr>p_element_settings := ES_list [mk_item ''section'' 1]\<rparr>) sample_store) =
     Raised ValueError \<and>
   fst (snd (put True True
     (empty_payload\<lparr>p_element_settings := ES_list [mk_item ''section'' 1]\<rparr>) sample_store)) =
     [Save_settings (environ sample_store)]"
  by (simp add: put_def empty_payload_def dict_get_def put_element_settings_def put_item_def
      mk_item_def Let_def)

subsection \<open>Entries that resolve to nothing\<close>

lemma update_first_keys:
  "(\<And>a. k (f a) = k a) \<Longrightarrow> map k (update_first P f xs) = map k xs"
  by (induction xs) simp_all

lemma update_first_absent: "\<forall>a\<in>set xs. \<not> P a \<Longrightarrow> update_first P f xs = xs"
  by (induction xs) simp_all

lemma assign_unit_id: "unit_id (assign_unit x u) = unit_id u"
  by (simp add: assign_unit_def Let_def split: option.splits)

lemma assign_lesson_id: "lesson_id (assign_lesson x l) = lesson_id l"
  by (simp add: assign_lesson_def Let_def split: option.splits)

lemma item_units_ids: "map unit_id (item_units x us) = map unit_id us"
  by (simp add: item_units_def update_first_keys assign_unit_id split: option.splits)

lemma item_lessons_ids: "map lesson_id (item_lessons x ls) = map lesson_id ls"
  by (simp add: item_lessons_def update_first_keys assign_lesson_id split: option.splits)

lemma find_unit_None: "find_unit_by_id c i = None \<longleftrightarrow> i \<notin> set (map unit_id (units c))"
  by (auto simp: find_unit_by_id_def find_None_iff)

lemma find_lesson_None: "find_lesson_by_id c i = None \<longleftrightarrow> i \<notin> set (map lesson_id (lessons c))"
  by (auto simp: find_lesson_by_id_def find_None_iff)

lemma item_effect_eq:
  "item_effect x c = c\<lparr>units := item_units x (units c), lessons := item_lessons x (lessons c)\<rparr>"
proof (cases "item_type x")
  case None
  then show ?thesis
    by (simp add: item_effect_def put_item_def item_units_def item_lessons_def split: option.splits)
next
  case (Some t)
  show ?thesis
  proof (cases "item_id x")
    case None
    with Some show ?thesis
      by (simp add: item_effect_def put_item_def item_units_def item_lessons_def)
  next
    case (Some i)
    have u: "find_unit_by_id c i = None \<Longrightarrow>
        update_first (\<lambda>u. unit_id u = i) (assign_unit x) (units c) = units c"
      by (rule update_first_absent) (simp add: find_unit_by_id_def find_None_iff)
    have l: "find_lesson_by_id c i = None \<Longrightarrow>
        update_first (\<lambda>l. lesson_id l = i) (assign_lesson x) (lessons c) = lessons c"
      by (rule update_first_absent) (simp add: find_lesson_by_id_def find_None_iff)
    from Some \<open>item_type x = Some t\<close> u l show ?thesis
      by (cases "find_unit_by_id c i"; cases "find_lesson_by_id c i")
         (simp_all add: item_effect_def put_item_def item_units_def item_lessons_def)
  qed
qed

lemma item_effect_ids:
  "map unit_id (units (item_effect x c)) = map unit_id (units c)"
  "map lesson_id (lessons (item_effect x c)) = map lesson_id (lessons c)"
  by (simp_all add: item_effect_eq item_units_ids item_lessons_ids)

lemma unresolved_item_ids:
  "map unit_id (units c') = map unit_id (units c) \<Longrightarrow>
   map lesson_id (lessons c') = map lesson_id (lessons c) \<Longrightarrow>
   unresolved_item c' x = unresolved_item c x"
  by (simp add: unresolved_item_def find_unit_None find_lesson_None split: option.splits)

lemma unresolved_item_effect: "unresolved_item (item_effect y c) x = unresolved_item c x"
  by (rule unresolved_item_ids) (rule item_effect_ids)+

lemma unresolved_item_no_error: "unresolved_item c x \<Longrightarrow> item_error x = None"
  by (cases "item_id x") (auto simp: unresolved_item_def item_error_def)

lemma unresolved_item_no_effect: "unresolved_item c x \<Longrightarrow> item_effect x c = c"
  by (cases "item_id x")
     (auto simp: unresolved_item_def item_effect_eq item_units_def item_lessons_def
       update_first_absent find_unit_by_id_def find_lesson_by_id_def find_None_iff)

lemma unresolved_item_put_item: "unresolved_item c x \<Longrightarrow> put_item x c = Inr c"
  by (simp add: put_item_cases unresolved_item_no_error unresolved_item_no_effect)

lemma put_item_unresolved_kept:
  "put_item y c = Inr c' \<Longrightarrow> unresolved_item c' x = unresolved_item c x"
  by (cases "item_error y") (auto simp: put_item_cases unresolved_item_effect)

lemma put_items_skip_unresolved:
  "unresolved_item c x \<Longrightarrow> put_items (xs @ x # ys) c = put_items (xs @ ys) c"
proof (induction xs arbitrary: c)
  case Nil
  then show ?case by (simp add: unresolved_item_put_item)
next
  case (Cons y xs)
  show ?case
  proof (cases "put_item y c")
    case (Inl e)
    then show ?thesis by simp
  next
    case (Inr c')
    with Cons.prems have "unresolved_item c' x" by (simp add: put_item_unresolved_kept)
    from Cons.IH [OF this] Inr show ?thesis by simp
  qed
qed

text \<open>
  C4 (as amended). An entry with type \<^verbatim>\<open>unit\<close> or \<^verbatim>\<open>lesson\<close> whose id resolves to
  nothing in the course raises no error and changes nothing, and the loop goes on with
  the remaining entries: \<^verbatim>\<open>put\<close> gives the same outcome, calls and store as for the
  payload without that entry. When every other entry carries a type of \<^verbatim>\<open>unit\<close> or
  \<^verbatim>\<open>lesson\<close> and an id, the request ends with \<^verbatim>\<open>200 Saved.\<close>
\<close>

theorem put_unresolved_entry:
  assumes "unresolved_item (stored_course st) x"
  shows "put xsrf_ok allowed (p\<lparr>p_element_settings := ES_list (xs @ x # ys)\<rparr>) st =
           put xsrf_ok allowed (p\<lparr>p_element_settings := ES_list (xs @ ys)\<rparr>) st \<and>
         (\<forall>c. put_items xs (stored_course st) = Inr c \<longrightarrow> put_item x c = Inr c) \<and>
         ((\<forall>y\<in>set (xs @ ys). item_error y = None) \<longrightarrow>
            fst (put True True (p\<lparr>p_element_settings := ES_list (xs @ x # ys)\<rparr>) st) =
              Sent 200 ''Saved.'')"
proof -
  have same: "put xsrf_ok allowed (p\<lparr>p_element_settings := ES_list (xs @ x # ys)\<rparr>) st =
      put xsrf_ok allowed (p\<lparr>p_element_settings := ES_list (xs @ ys)\<rparr>) st" for xsrf_ok allowed
    by (simp add: put_def put_element_settings_def put_items_skip_unresolved [OF assms])
  have here: "put_item x c = Inr c" if "put_items xs (stored_course st) = Inr c" for c
  proof -
    from that have "c = fold item_effect xs (stored_course st)"
      by (simp add: put_items_cases split: option.splits)
    moreover have "unresolved_item (fold item_effect xs d) x = unresolved_item d x" for d
      by (induction xs arbitrary: d) (simp_all add: unresolved_item_effect)
    ultimately have "unresolved_item c x" using assms by simp
    then show ?thesis by (rule unresolved_item_put_item)
  qed
  have saved: "fst (put True True (p\<lparr>p_element_settings := ES_list (xs @ x # ys)\<rparr>) st) =
      Sent 200 ''Saved.''" if "\<forall>y\<in>set (xs @ ys). item_error y = None"
  proof -
    from that have "items_error (xs @ ys) = None" by (simp only: items_error_None)
    then have "fst (put True True (p\<lparr>p_element_settings := ES_list (xs @ ys)\<rparr>) st) =
        Sent 200 ''Saved.''"
      by (simp add: put_authorized put_element_settings_def put_items_cases)
    with same [of True True] show ?thesis by (simp only:)
  qed
  from same here saved show ?thesis by blast
qed

theorem put_unresolved_entry_witness:
  "unresolved_item (stored_course sample_store) (mk_item ''unit'' 99) \<and>
   list_all (\<lambda>y. item_error y = None) ([mk_item ''unit'' 1] @ [mk_item ''lesson'' 10]) \<and>
   fst (put True True
     (empty_payload\<lparr>p_element_settings :=
        ES_list ([mk_item ''unit'' 1] @ mk_item ''unit'' 99 # [mk_item ''lesson'' 10])\<rparr>)
     sample_store) = Sent 200 ''Saved.''"
proof -
  have u: "unresolved_item (stored_course sample_store) (mk_item ''unit'' 99)"
    by (simp add: unresolved_item_def mk_item_def sample_store_def sample_course_def
        find_unit_by_id_def mk_unit_def)
  have w: "\<forall>y\<in>set ([mk_item ''unit'' 1] @ [mk_item ''lesson'' 10]). item_error y = None"
    by (simp add: item_error_def mk_item_def)
  from put_unresolved_entry [OF u, where p = empty_payload and xs = "[mk_item ''unit'' 1]"
      and ys = "[mk_item ''lesson'' 10]"] w
  have s: "fst (put True True
     (empty_payload\<lparr>p_element_settings :=
        ES_list ([mk_item ''unit'' 1] @ mk_item ''unit'' 99 # [mk_item ''lesson'' 10])\<rparr>)
     sample_store) = Sent 200 ''Saved.''"
    by blast
  from w have w': "list_all (\<lambda>y. item_error y = None) ([mk_item ''unit'' 1] @ [mk_item ''lesson'' 10])"
    by (simp only: list_all_iff)
  from u w' s show ?thesis by blast
qed

text \<open>
  C4 as stated fails: a payload that contains an unresolved entry and, after it, an
  entry of type \<^verbatim>\<open>section\<close> does not complete; it ends with \<^verbatim>\<open>ValueError\<close>.
\<close>

theorem put_unresolved_entry_counterexample:
  "item_type (mk_item ''unit'' 99) = Some ''unit'' \<and> item_id (mk_item ''unit'' 99) = Some 99 \<and>
   find_unit_by_id (stored_course sample_store) 99 = None \<and>
   fst (put True True
     (empty_payload\<lparr>p_element_settings :=
        ES_list [mk_item ''unit'' 99, mk_item ''section'' 1]\<rparr>) sample_store) =
     Raised ValueError"
  by (simp add: put_def empty_payload_def dict_get_def put_element_settings_def put_item_def
      mk_item_def Let_def sample_store_def sample_course_def find_unit_by_id_def mk_unit_def)

subsection \<open>Writing back what was read\<close>

lemma find_distinct_key:
  "distinct (map k xs) \<Longrightarrow> x \<in> set xs \<Longrightarrow> find (\<lambda>y. k y = k x) xs = Some x"
proof (induction xs)
  case Nil
  then show ?case by simp
next
  case (Cons y ys)
  show ?case
  proof (cases "y = x")
    case True
    then show ?thesis by simp
  next
    case False
    with Cons.prems have "x \<in> set ys" "k y \<noteq> k x" by (auto simp: image_iff)
    with Cons show ?thesis by simp
  qed
qed

lemma update_first_fixed:
  "find P xs = Some a \<Longrightarrow> f a = a \<Longrightarrow> update_first P f xs = xs"
  by (induction xs) (simp_all split: if_splits)

lemma assign_unit_self: "assign_unit (element_to_item (unit_element v b)) v = v"
  by (simp add: assign_unit_def element_to_item_def unit_element_def)

lemma assign_lesson_self: "assign_lesson (element_to_item (lesson_element l)) l = l"
  by (simp add: assign_lesson_def element_to_item_def lesson_element_def)

lemma unit_element_no_effect:
  assumes "find_unit_by_id c (unit_id v) = Some v"
  shows "item_effect (element_to_item (unit_element v b)) c = c"
proof -
  have "update_first (\<lambda>u. unit_id u = unit_id v)
          (assign_unit (element_to_item (unit_element v b))) (units c) = units c"
    using assms unfolding find_unit_by_id_def
    by (rule update_first_fixed) (rule assign_unit_self)
  then show ?thesis
    by (simp add: item_effect_eq item_units_def item_lessons_def element_to_item_def
        unit_element_def)
qed

lemma lesson_element_no_effect:
  assumes "find_lesson_by_id c (lesson_id l) = Some l"
  shows "item_effect (element_to_item (lesson_element l)) c = c"
proof -
  have "update_first (\<lambda>a. lesson_id a = lesson_id l)
          (assign_lesson (element_to_item (lesson_element l))) (lessons c) = lessons c"
    using assms unfolding find_lesson_by_id_def
    by (rule update_first_fixed) (rule assign_lesson_self)
  then show ?thesis
    by (simp add: item_effect_eq item_units_def item_lessons_def element_to_item_def
        lesson_element_def)
qed

lemma element_item_no_error:
  "item_error (element_to_item (unit_element v b)) = None"
  "item_error (element_to_item (lesson_element l)) = None"
  by (simp_all add: item_error_def element_to_item_def unit_element_def lesson_element_def)

lemma block_members:
  assumes "e \<in> set (unit_block c u)"
  shows "e = unit_element u False \<or>
         e \<in> set (nested_ref c (pre_assessment u)) \<or>
         e \<in> set (map lesson_element (get_lessons c (unit_id u))) \<or>
         e \<in> set (nested_ref c (post_assessment u))"
proof (cases "is_assessment u \<and> get_parent_unit c (unit_id u) \<noteq> None")
  case True
  with assms show ?thesis by (simp add: unit_block_def)
next
  case shown: False
  show ?thesis
  proof (cases "is_unit u")
    case True
    with assms show ?thesis by (simp add: unit_block_def is_unit_not_assessment)
  next
    case False
    with shown assms show ?thesis by (auto simp: unit_block_def split: if_splits)
  qed
qed

lemma nested_ref_members:
  assumes "e \<in> set (nested_ref c r)"
  shows "\<exists>a. e = unit_element a True \<and> find_unit_by_id c (unit_id a) = Some a"
proof (cases "has_ref r")
  case False
  with assms show ?thesis by (simp add: nested_ref_def)
next
  case True
  show ?thesis
  proof (cases "find_unit_by_id c (the r)")
    case None
    with True assms show ?thesis by (simp add: nested_ref_def)
  next
    case (Some a)
    with True assms have "e = unit_element a True" by (simp add: nested_ref_def)
    moreover from find_unit_by_id_Some [OF Some] Some
    have "find_unit_by_id c (unit_id a) = Some a" by simp
    ultimately show ?thesis by blast
  qed
qed

lemma block_element_no_effect:
  assumes "e \<in> set (unit_block c u)" "u \<in> set (units c)" "unique_ids c"
  shows "item_effect (element_to_item e) c = c \<and> item_error (element_to_item e) = None"
proof -
  from assms(3) have du: "distinct (map unit_id (units c))"
    and dl: "distinct (map lesson_id (lessons c))" by (simp_all add: unique_ids_def)
  from block_members [OF assms(1)] show ?thesis
  proof (elim disjE)
    assume e: "e = unit_element u False"
    from find_distinct_key [OF du assms(2)]
    have "find_unit_by_id c (unit_id u) = Some u" by (simp add: find_unit_by_id_def)
    with e show ?thesis by (simp add: unit_element_no_effect element_item_no_error)
  next
    assume "e \<in> set (nested_ref c (pre_assessment u))"
    from nested_ref_members [OF this] show ?thesis
      by (auto simp: unit_element_no_effect element_item_no_error)
  next
    assume "e \<in> set (nested_ref c (post_assessment u))"
    from nested_ref_members [OF this] show ?thesis
      by (auto simp: unit_element_no_effect element_item_no_error)
  next
    assume "e \<in> set (map lesson_element (get_lessons c (unit_id u)))"
    then obtain l where l: "l \<in> set (lessons c)" "e = lesson_element l"
      by (auto simp: get_lessons_def)
    from find_distinct_key [OF dl l(1)]
    have "find_lesson_by_id c (lesson_id l) = Some l" by (simp add: find_lesson_by_id_def)
    with l(2) show ?thesis by (simp add: lesson_element_no_effect element_item_no_error)
  qed
qed

lemma fold_no_effect: "\<forall>x\<in>set xs. item_effect x c = c \<Longrightarrow> fold item_effect xs c = c"
  by (induction xs) simp_all

lemma put_items_round_trip:
  assumes "unique_ids c" "traverse_course c = Inr es"
  shows "put_items (map element_to_item es) c = Inr c"
proof -
  from assms(2) have es: "es = concat (map (unit_block c) (units c))"
    by (simp add: traverse_course_cases split: if_splits)
  have each: "item_effect (element_to_item e) c = c \<and> item_error (element_to_item e) = None"
    if "e \<in> set es" for e
  proof -
    from that es obtain u where "u \<in> set (units c)" "e \<in> set (unit_block c u)" by auto
    then show ?thesis using assms(1) by (intro block_element_no_effect)
  qed
  then have "items_error (map element_to_item es) = None"
    by (simp add: items_error_None)
  moreover from each have "fold item_effect (map element_to_item es) c = c"
    by (intro fold_no_effect) simp
  ultimately show ?thesis by (simp add: put_items_cases)
qed

text \<open>
  C3. Round trip: when identifiers are unique within the course and
  \<^verbatim>\<open>traverse_course\<close> returns the list \<open>es\<close>, a payload whose \<^verbatim>\<open>element_settings\<close> is
  that list, each element sent back with its own type, id, availability and
  shown-when-unavailable value, runs through the loop without error and without changing
  any unit or lesson: \<^verbatim>\<open>put\<close> answers \<^verbatim>\<open>200 Saved.\<close> and the stored unit/lesson tree
  is the one stored before.
\<close>

theorem put_round_trip:
  assumes "unique_ids (stored_course st)" "traverse_course (stored_course st) = Inr es"
    and "p_element_settings p = ES_list (map element_to_item es)"
  shows "put_items (map element_to_item es) (stored_course st) = Inr (stored_course st) \<and>
         fst (put True True p st) = Sent 200 ''Saved.'' \<and>
         stored_course (snd (snd (put True True p st))) = stored_course st"
proof -
  from assms(1,2) have rt: "put_items (map element_to_item es) (stored_course st) =
      Inr (stored_course st)" by (rule put_items_round_trip)
  with assms(3) have "put_element_settings (p_element_settings p) (stored_course st) =
      Inr (stored_course st)" by (simp add: put_element_settings_def)
  then have "fst (put True True p st) = Sent 200 ''Saved.''"
    and "stored_course (snd (snd (put True True p st))) = stored_course st"
    by (simp_all add: put_authorized)
  with rt show ?thesis by (intro conjI)
qed

theorem put_round_trip_witness:
  "unique_ids (stored_course sample_store) \<and>
   (\<exists>es. traverse_course (stored_course sample_store) = Inr es \<and> length es = 8 \<and>
      fst (put True True
        (empty_payload\<lparr>p_element_settings := ES_list (map element_to_item es)\<rparr>) sample_store) =
        Sent 200 ''Saved.'' \<and>
      stored_course (snd (snd (put True True
        (empty_payload\<lparr>p_element_settings := ES_list (map element_to_item es)\<rparr>) sample_store))) =
        sample_course)"
proof -
  let ?es = "[unit_element (mk_unit 1 TYPE_UNIT (Some 2) (Some 3)) False,
          unit_element (mk_unit 2 TYPE_ASSESSMENT None None) True,
          lesson_element (mk_lesson 10 1), lesson_element (mk_lesson 11 1),
          unit_element (mk_unit 3 TYPE_ASSESSMENT None None) True,
          unit_element (mk_unit 4 TYPE_ASSESSMENT None None) False,
          unit_element (mk_unit 5 TYPE_UNIT None None) False,
          lesson_element (mk_lesson 12 5)]"
  let ?p = "empty_payload\<lparr>p_element_settings := ES_list (map element_to_item ?es)\<rparr>"
  have sc: "stored_course sample_store = sample_course" by (simp add: sample_store_def)
  have u: "unique_ids (stored_course sample_store)"
    unfolding sc by (rule sample_course_unique_ids)
  have t: "traverse_course (stored_course sample_store) = Inr ?es"
    unfolding sc by (rule sample_course_flat)
  have p: "p_element_settings ?p = ES_list (map element_to_item ?es)" by simp
  from put_round_trip [OF u t p]
  have a: "fst (put True True ?p sample_store) = Sent 200 ''Saved.''"
    and b: "stored_course (snd (snd (put True True ?p sample_store))) = stored_course sample_store"
    by blast+
  from b sc have b': "stored_course (snd (snd (put True True ?p sample_store))) = sample_course"
    by (simp only:)
  have len: "length ?es = 8" by simp
  from t len a b' have "\<exists>es. traverse_course (stored_course sample_store) = Inr es \<and> length es = 8 \<and>
      fst (put True True
        (empty_payload\<lparr>p_element_settings := ES_list (map element_to_item es)\<rparr>) sample_store) =
        Sent 200 ''Saved.'' \<and>
      stored_course (snd (snd (put True True
        (empty_payload\<lparr>p_element_settings := ES_list (map element_to_item es)\<rparr>) sample_store))) =
        sample_course"
    by (intro exI [of _ ?es] conjI)
  with u show ?thesis by (intro conjI)
qed

subsection \<open>Applying a payload twice\<close>

lemma update_first_compose:
  "(\<And>a. k (g a) = k a) \<Longrightarrow>
   update_first (\<lambda>a. k a = i) f (update_first (\<lambda>a. k a = i) g xs) =
   update_first (\<lambda>a. k a = i) (\<lambda>a. f (g a)) xs"
  by (induction xs) simp_all

lemma update_first_commute:
  "i \<noteq> j \<Longrightarrow> (\<And>a. k (f a) = k a) \<Longrightarrow> (\<And>a. k (g a) = k a) \<Longrightarrow>
   update_first (\<lambda>a. k a = i) f (update_first (\<lambda>a. k a = j) g xs) =
   update_first (\<lambda>a. k a = j) g (update_first (\<lambda>a. k a = i) f xs)"
  by (induction xs) simp_all

lemma update_first_masks:
  assumes keys: "\<And>a. k (f a) = k a" "\<And>a. k (g a) = k a"
    and absorb: "\<And>a. f (g (f a)) = f (g a)"
    and eq: "update_first (\<lambda>a. k a = i) f xs = update_first (\<lambda>a. k a = i) f ys"
  shows "update_first (\<lambda>a. k a = i) f (update_first (\<lambda>a. k a = j) g xs) =
         update_first (\<lambda>a. k a = i) f (update_first (\<lambda>a. k a = j) g ys)"
proof (cases "i = j")
  case False
  then show ?thesis
    by (simp add: update_first_commute [where k = k, OF False keys] eq)
next
  case True
  have "update_first (\<lambda>a. k a = i) (\<lambda>a. f (g a)) zs =
        update_first (\<lambda>a. k a = i) (\<lambda>a. f (g a)) (update_first (\<lambda>a. k a = i) f zs)" for zs
    by (simp add: update_first_compose [where k = k, OF keys(1)] absorb)
  then have "update_first (\<lambda>a. k a = i) (\<lambda>a. f (g a)) xs =
        update_first (\<lambda>a. k a = i) (\<lambda>a. f (g a)) ys"
    using eq by metis
  then show ?thesis
    by (simp add: True update_first_compose [where k = k, OF keys(2)])
qed

lemma update_first_idem:
  assumes "\<And>a. k (f a) = k a" "\<And>a. f (f a) = f a"
  shows "update_first (\<lambda>a. k a = i) f (update_first (\<lambda>a. k a = i) f xs) =
         update_first (\<lambda>a. k a = i) f xs"
  by (simp add: update_first_compose [where k = k, OF assms(1)] assms(2))

lemma assign_unit_absorb:
  "assign_unit x (assign_unit y (assign_unit x u)) = assign_unit x (assign_unit y u)"
  by (cases "item_availability x"; cases "item_shown_when_unavailable x";
      cases "item_availability y"; cases "item_shown_when_unavailable y")
     (simp_all add: assign_unit_def)

lemma assign_unit_idem: "assign_unit x (assign_unit x u) = assign_unit x u"
  by (cases "item_availability x"; cases "item_shown_when_unavailable x")
     (simp_all add: assign_unit_def)

lemma assign_lesson_absorb:
  "assign_lesson x (assign_lesson y (assign_lesson x l)) = assign_lesson x (assign_lesson y l)"
  by (cases "item_availability x"; cases "item_shown_when_unavailable x";
      cases "item_availability y"; cases "item_shown_when_unavailable y")
     (simp_all add: assign_lesson_def)

lemma assign_lesson_idem: "assign_lesson x (assign_lesson x l) = assign_lesson x l"
  by (cases "item_availability x"; cases "item_shown_when_unavailable x")
     (simp_all add: assign_lesson_def)

lemma item_units_active:
  "item_type x = Some ''unit'' \<Longrightarrow> item_id x = Some i \<Longrightarrow>
   item_units x us = update_first (\<lambda>u. unit_id u = i) (assign_unit x) us"
  by (simp add: item_units_def)

lemma item_units_inactive:
  "item_type x \<noteq> Some ''unit'' \<or> item_id x = None \<Longrightarrow> item_units x us = us"
  by (cases "item_id x") (auto simp: item_units_def)

lemma item_lessons_active:
  "item_type x = Some ''lesson'' \<Longrightarrow> item_id x = Some i \<Longrightarrow>
   item_lessons x ls = update_first (\<lambda>l. lesson_id l = i) (assign_lesson x) ls"
  by (simp add: item_lessons_def)

lemma item_lessons_inactive:
  "item_type x \<noteq> Some ''lesson'' \<or> item_id x = None \<Longrightarrow> item_lessons x ls = ls"
  by (cases "item_id x") (auto simp: item_lessons_def)

lemma item_units_masks:
  assumes "item_units x us1 = item_units x us2"
  shows "item_units x (item_units y us1) = item_units x (item_units y us2)"
proof (cases "item_type x \<noteq> Some ''unit'' \<or> item_id x = None")
  case True
  with assms show ?thesis by (simp add: item_units_inactive)
next
  case False
  then obtain i where x: "item_type x = Some ''unit''" "item_id x = Some i" by auto
  show ?thesis
  proof (cases "item_type y \<noteq> Some ''unit'' \<or> item_id y = None")
    case True
    with assms show ?thesis by (simp add: item_units_inactive)
  next
    case False
    then obtain j where y: "item_type y = Some ''unit''" "item_id y = Some j" by auto
    from assms have "update_first (\<lambda>u. unit_id u = i) (assign_unit x) us1 =
        update_first (\<lambda>u. unit_id u = i) (assign_unit x) us2"
      by (simp only: item_units_active [OF x])
    then have "update_first (\<lambda>u. unit_id u = i) (assign_unit x)
          (update_first (\<lambda>u. unit_id u = j) (assign_unit y) us1) =
        update_first (\<lambda>u. unit_id u = i) (assign_unit x)
          (update_first (\<lambda>u. unit_id u = j) (assign_unit y) us2)"
      by (intro update_first_masks [where k = unit_id])
         (simp_all add: assign_unit_id assign_unit_absorb)
    then show ?thesis by (simp only: item_units_active [OF x] item_units_active [OF y])
  qed
qed

lemma item_lessons_masks:
  assumes "item_lessons x ls1 = item_lessons x ls2"
  shows "item_lessons x (item_lessons y ls1) = item_lessons x (item_lessons y ls2)"
proof (cases "item_type x \<noteq> Some ''lesson'' \<or> item_id x = None")
  case True
  with assms show ?thesis by (simp add: item_lessons_inactive)
next
  case False
  then obtain i where x: "item_type x = Some ''lesson''" "item_id x = Some i" by auto
  show ?thesis
  proof (cases "item_type y \<noteq> Some ''lesson'' \<or> item_id y = None")
    case True
    with assms show ?thesis by (simp add: item_lessons_inactive)
  next
    case False
    then obtain j where y: "item_type y = Some ''lesson''" "item_id y = Some j" by auto
    from assms have "update_first (\<lambda>l. lesson_id l = i) (assign_lesson x) ls1 =
        update_first (\<lambda>l. lesson_id l = i) (assign_lesson x) ls2"
      by (simp only: item_lessons_active [OF x])
    then have "update_first (\<lambda>l. lesson_id l = i) (assign_lesson x)
          (update_first (\<lambda>l. lesson_id l = j) (assign_lesson y) ls1) =
        update_first (\<lambda>l. lesson_id l = i) (assign_lesson x)
          (update_first (\<lambda>l. lesson_id l = j) (assign_lesson y) ls2)"
      by (intro update_first_masks [where k = lesson_id])
         (simp_all add: assign_lesson_id assign_lesson_absorb)
    then show ?thesis by (simp only: item_lessons_active [OF x] item_lessons_active [OF y])
  qed
qed

lemma item_units_idem: "item_units x (item_units x us) = item_units x us"
proof (cases "item_type x \<noteq> Some ''unit'' \<or> item_id x = None")
  case True
  then show ?thesis by (simp add: item_units_inactive)
next
  case False
  then obtain i where x: "item_type x = Some ''unit''" "item_id x = Some i" by auto
  show ?thesis
    unfolding item_units_active [OF x]
    by (rule update_first_idem [where k = unit_id]) (simp_all add: assign_unit_id assign_unit_idem)
qed

lemma item_lessons_idem: "item_lessons x (item_lessons x ls) = item_lessons x ls"
proof (cases "item_type x \<noteq> Some ''lesson'' \<or> item_id x = None")
  case True
  then show ?thesis by (simp add: item_lessons_inactive)
next
  case False
  then obtain i where x: "item_type x = Some ''lesson''" "item_id x = Some i" by auto
  show ?thesis
    unfolding item_lessons_active [OF x]
    by (rule update_first_idem [where k = lesson_id])
       (simp_all add: assign_lesson_id assign_lesson_idem)
qed

lemma course_eqI: "units a = units b \<Longrightarrow> lessons a = lessons b \<Longrightarrow> a = (b :: course)"
  by (rule course.equality) simp_all

lemma item_effect_fields:
  "units (item_effect x c) = item_units x (units c)"
  "lessons (item_effect x c) = item_lessons x (lessons c)"
  by (simp_all add: item_effect_eq)

lemma item_effect_masks:
  assumes "item_effect x c1 = item_effect x c2"
  shows "item_effect x (item_effect y c1) = item_effect x (item_effect y c2)"
proof (rule course_eqI)
  from assms have "units (item_effect x c1) = units (item_effect x c2)" by (simp only:)
  then have "item_units x (units c1) = item_units x (units c2)"
    by (simp only: item_effect_fields)
  then show "units (item_effect x (item_effect y c1)) = units (item_effect x (item_effect y c2))"
    unfolding item_effect_fields by (rule item_units_masks)
next
  from assms have "lessons (item_effect x c1) = lessons (item_effect x c2)" by (simp only:)
  then have "item_lessons x (lessons c1) = item_lessons x (lessons c2)"
    by (simp only: item_effect_fields)
  then show "lessons (item_effect x (item_effect y c1)) = lessons (item_effect x (item_effect y c2))"
    unfolding item_effect_fields by (rule item_lessons_masks)
qed

lemma item_effect_idem: "item_effect x (item_effect x c) = item_effect x c"
  by (rule course_eqI) (simp_all add: item_effect_fields item_units_idem item_lessons_idem)

lemma fold_item_effect_masks:
  "item_effect x c1 = item_effect x c2 \<Longrightarrow>
   item_effect x (fold item_effect ys c1) = item_effect x (fold item_effect ys c2)"
proof (induction ys arbitrary: c1 c2)
  case Nil
  then show ?case by simp
next
  case (Cons y ys)
  from Cons.prems have "item_effect x (item_effect y c1) = item_effect x (item_effect y c2)"
    by (rule item_effect_masks)
  from Cons.IH [OF this] show ?case by simp
qed

lemma fold_item_effect_idem:
  "fold item_effect xs (fold item_effect xs c) = fold item_effect xs c"
proof (induction xs arbitrary: c rule: rev_induct)
  case Nil
  show ?case by simp
next
  case (snoc x xs)
  let ?F = "fold item_effect xs"
  have "item_effect x (item_effect x (?F c)) = item_effect x (?F c)"
    by (rule item_effect_idem)
  from fold_item_effect_masks [OF this, of xs]
  have "item_effect x (?F (item_effect x (?F c))) = item_effect x (?F (?F c))" .
  with snoc.IH [of c] show ?case by simp
qed

lemma put_items_again:
  "put_items xs c = Inr c' \<Longrightarrow> put_items xs c' = Inr c'"
  by (cases "items_error xs") (auto simp: put_items_cases fold_item_effect_idem)

lemma put_items_error_again:
  "put_items xs c = Inl e \<Longrightarrow> put_items xs c' = Inl e"
  by (cases "items_error xs") (auto simp: put_items_cases)

lemma put_element_settings_again:
  assumes "put_element_settings f c = Inr c'"
  shows "put_element_settings f c' = Inr c'"
proof (cases f)
  case ES_absent
  with assms show ?thesis by (simp add: put_element_settings_def)
next
  case ES_null
  with assms show ?thesis by (simp add: put_element_settings_def)
next
  case (ES_list items)
  with assms have "put_items items c = Inr c'" by (simp add: put_element_settings_def)
  then have "put_items items c' = Inr c'" by (rule put_items_again)
  with ES_list show ?thesis by (simp add: put_element_settings_def)
qed

lemma put_element_settings_error_again:
  assumes "put_element_settings f c = Inl e"
  shows "put_element_settings f c' = Inl e"
proof (cases f)
  case ES_absent
  with assms show ?thesis by (simp add: put_element_settings_def)
next
  case ES_null
  with assms show ?thesis by (simp add: put_element_settings_def)
next
  case (ES_list items)
  with assms have "put_items items c = Inl e" by (simp add: put_element_settings_def)
  then have "put_items items c' = Inl e" by (rule put_items_error_again)
  with ES_list show ?thesis by (simp add: put_element_settings_def)
qed

lemma merged_settings_idem: "merged_settings p (merged_settings p s) = merged_settings p s"
  by (simp add: merged_settings_def Let_def)

lemma course_level_store_again:
  "course_level_store p ((course_level_store p st)\<lparr>stored_course := c\<rparr>) =
   (course_level_store p st)\<lparr>stored_course := c\<rparr>"
  by (simp add: course_level_store_def Let_def merged_settings_idem)

lemma course_level_store_idem:
  "course_level_store p (course_level_store p st) = course_level_store p st"
  by (simp add: course_level_store_def Let_def merged_settings_idem)

text \<open>
  C6. Idempotence: running \<^verbatim>\<open>put\<close> a second time with the same payload, on the store
  the first run left, leaves that store as it is and ends the same way (the same
  response, or the same exception). This holds for every payload and store, also when
  the loop over the entries raises, and whatever the two access checks answer.
\<close>

theorem put_idempotent:
  "snd (snd (put xsrf_ok allowed p (snd (snd (put xsrf_ok allowed p st))))) =
     snd (snd (put xsrf_ok allowed p st)) \<and>
   fst (put xsrf_ok allowed p (snd (snd (put xsrf_ok allowed p st)))) =
     fst (put xsrf_ok allowed p st)"
proof (cases "xsrf_ok \<and> allowed")
  case False
  then show ?thesis by (simp add: put_refused)
next
  case True
  then have g: "xsrf_ok = True" "allowed = True" by simp_all
  show ?thesis
  proof (cases "put_element_settings (p_element_settings p) (stored_course st)")
    case (Inl e)
    then have first: "put True True p st = (Raised e, course_level_calls p st, course_level_store p st)"
      by (simp add: put_authorized)
    from Inl have "put_element_settings (p_element_settings p)
        (stored_course (course_level_store p st)) = Inl e"
      by (simp add: course_level_store_fields)
    then have "put True True p (course_level_store p st) =
        (Raised e, course_level_calls p (course_level_store p st), course_level_store p st)"
      by (simp add: put_authorized course_level_store_idem)
    with first show ?thesis unfolding g by simp
  next
    case (Inr c')
    let ?s = "(course_level_store p st)\<lparr>stored_course := c'\<rparr>"
    from Inr have first: "put True True p st =
        (Sent 200 ''Saved.'', course_level_calls p st @ [Save_course c'], ?s)"
      by (simp add: put_authorized)
    from put_element_settings_again [OF Inr]
    have "put_element_settings (p_element_settings p) (stored_course ?s) = Inr c'" by simp
    then have "put True True p ?s =
        (Sent 200 ''Saved.'', course_level_calls p ?s @ [Save_course c'], ?s)"
      by (simp add: put_authorized course_level_store_again)
    with first show ?thesis unfolding g by simp
  qed
qed

theorem put_idempotent_witness:
  "snd (snd (put True True
     (empty_payload\<lparr>p_whitelist := Some (JStr ''b@example.com''),
        p_element_settings := ES_list [mk_item ''unit'' 1, mk_item ''lesson'' 10]\<rparr>)
     (snd (snd (put True True
       (empty_payload\<lparr>p_whitelist := Some (JStr ''b@example.com''),
          p_element_settings := ES_list [mk_item ''unit'' 1, mk_item ''lesson'' 10]\<rparr>)
       sample_store))))) =
   snd (snd (put True True
     (empty_payload\<lparr>p_whitelist := Some (JStr ''b@example.com''),
        p_element_settings := ES_list [mk_item ''unit'' 1, mk_item ''lesson'' 10]\<rparr>)
     sample_store)) \<and>
   reg_form_whitelist (environ (snd (snd (put True True
     (empty_payload\<lparr>p_whitelist := Some (JStr ''b@example.com''),
        p_element_settings := ES_list [mk_item ''unit'' 1, mk_item ''lesson'' 10]\<rparr>)
     sample_store)))) = JStr ''b@example.com''"
proof -
  let ?p = "empty_payload\<lparr>p_whitelist := Some (JStr ''b@example.com''),
        p_element_settings := ES_list [mk_item ''unit'' 1, mk_item ''lesson'' 10]\<rparr>"
  note t = put_idempotent [of True True ?p sample_store]
  have "reg_form_whitelist (environ (snd (snd (put True True ?p sample_store)))) =
      JStr ''b@example.com''"
    by (simp add: put_store_fields merged_settings_def dict_get_def Let_def)
  with t [THEN conjunct1] show ?thesis by (intro conjI)
qed

end
